theory Spec2Isabelle
  imports Complex_Main
begin

section \<open>Values and failures of the Python program\<close>

text \<open>
  The transfer tool (\<^verbatim>\<open>access-stream.py\<close>, with the older \<^verbatim>\<open>export-stream.py\<close>)
  works on decoded JSON values, on HTTP responses and on files. A decoded JSON document is
  a value of \<open>json\<close>; a Python \<^verbatim>\<open>dict\<close> is an association list that is read with
  \<open>map_of\<close>. Floats are kept as rationals (NaN and the infinities are left out).
\<close>

datatype json =
    JNull
  | JBool bool
  | JInt int
  | JFloat rat
  | JStr string
  | JArr "json list"
  | JObj "(string \<times> json) list"

text \<open>Every exception the modelled functions can raise is a value; \<open>SystemExit\<close> is \<^verbatim>\<open>exit()\<close>.\<close>

datatype error =
    KeyError
  | IndexError
  | TypeError
  | AttributeError
  | JSONDecodeError
  | RequestException
  | FileNotFoundError
  | IsADirectoryError
  | NotADirectoryError
  | UnicodeDecodeError
  | BadZipFile
  | ReadError
  | SystemExit

definition bind_err :: "error + 'a \<Rightarrow> ('a \<Rightarrow> error + 'b) \<Rightarrow> error + 'b" where
  "bind_err x f = (case x of Inl e \<Rightarrow> Inl e | Inr v \<Rightarrow> f v)"

text \<open>\<^verbatim>\<open>d[k]\<close> with a string key: only a dict can be subscripted with a string.\<close>

fun getitem :: "json \<Rightarrow> string \<Rightarrow> error + json" where
  "getitem (JObj kvs) k = (case map_of kvs k of None \<Rightarrow> Inl KeyError | Some v \<Rightarrow> Inr v)"
| "getitem _ k = Inl TypeError"

text \<open>\<^verbatim>\<open>x[0]\<close>: the first element of a list, the first character of a string; a dict decoded
  from JSON has string keys only, so the key \<^verbatim>\<open>0\<close> is missing.\<close>

fun getindex0 :: "json \<Rightarrow> error + json" where
  "getindex0 (JArr []) = Inl IndexError"
| "getindex0 (JArr (x # xs)) = Inr x"
| "getindex0 (JStr []) = Inl IndexError"
| "getindex0 (JStr (c # cs)) = Inr (JStr [c])"
| "getindex0 (JObj kvs) = Inl KeyError"
| "getindex0 _ = Inl TypeError"

text \<open>Iteration (\<^verbatim>\<open>for x in v\<close>, \<^verbatim>\<open>list.extend(v)\<close>): a list gives its elements, a dict its
  keys, a string its characters; anything else is not iterable.\<close>

fun py_iter :: "json \<Rightarrow> error + json list" where
  "py_iter (JArr xs) = Inr xs"
| "py_iter (JObj kvs) = Inr (map (\<lambda>kv. JStr (fst kv)) kvs)"
| "py_iter (JStr s) = Inr (map (\<lambda>c. JStr [c]) s)"
| "py_iter _ = Inl TypeError"

text \<open>Truth value of a decoded JSON value (\<^verbatim>\<open>if v:\<close>, \<^verbatim>\<open>while v:\<close>).\<close>

fun truthy :: "json \<Rightarrow> bool" where
  "truthy JNull = False"
| "truthy (JBool b) = b"
| "truthy (JInt i) = (i \<noteq> 0)"
| "truthy (JFloat q) = (q \<noteq> 0)"
| "truthy (JStr s) = (s \<noteq> [])"
| "truthy (JArr xs) = (xs \<noteq> [])"
| "truthy (JObj kvs) = (kvs \<noteq> [])"

section \<open>The HTTP client, the JSON codec and the file system\<close>

text \<open>
  \<^verbatim>\<open>requests.get\<close> and \<^verbatim>\<open>requests.post\<close> talk to a server whose state changes with every
  request: the server is a transition function on a state of type \<open>'w\<close>. A response has a
  status code, a text and the result of \<^verbatim>\<open>response.json()\<close> (\<open>None\<close> when the body is no
  JSON document and the call raises). \<^verbatim>\<open>json.dumps\<close> and \<^verbatim>\<open>json.loads\<close> are the library's;
  they are parameters of the model. The client is taken to answer every request with a
  response (a refused connection is outside the model).
\<close>

type_synonym headers = "(string \<times> string) list"

datatype request =
    GET string headers
  | POST string headers string

record response =
  status_code :: int
  resp_text :: string
  resp_json :: "json option"

record 'w env =
  http :: "'w \<Rightarrow> request \<Rightarrow> response \<times> 'w"
  dumps :: "json \<Rightarrow> string"
  loads :: "string \<Rightarrow> json option"

text \<open>
  A file holds text or is an archive; an archive is represented by the directory tree that
  \<^verbatim>\<open>extractall\<close> produces from it. The temporary directory of
  \<^verbatim>\<open>tempfile.TemporaryDirectory()\<close> is fresh, so paths below it are kept apart from the
  paths the user names. A path of the user reaches \<^verbatim>\<open>open\<close> in one of two forms: as the
  string that was given (\<open>UserPath\<close>), or as the \<^verbatim>\<open>pathlib.Path\<close> object made from that
  string (\<open>PathObject\<close>), which has lost a trailing slash and every \<^verbatim>\<open>.\<close> component.
\<close>

datatype tree =
    TFile string
  | TDir "(string \<times> tree) list"

datatype disk_file =
    Text string
  | Zip "(string \<times> tree) list"
  | TarXz "(string \<times> tree) list"

datatype path =
    UserPath string
  | PathObject string
  | TempPath "string list"

text \<open>What the program prints, one constructor for each message.\<close>

datatype msg =
    FailedFetchPage int
  | Compressing string
  | Compressed string
  | Extracting string
  | Extracted string
  | UnsupportedFileType string
  | FailedUpload int string
  | ErrorDecodingJSON string
  | Uploaded nat
  | UploadedWithFailures nat nat
  | ErrorMultipleJson
  | ErrorNoJson
  | FailedStartProjection int
  | FailedProjectionStatus int
  | FailedStopProjection int
  | FailedListStreams int

text \<open>The state the program runs in: the server, the requests issued so far (a log kept
  for the statements below), the files (by the canonical name \<open>file_key\<close> below), the
  temporary directory and the printed lines. The bytes of an archive are not modelled;
  what comes of reading an archive in text mode is given by \<open>archive_text\<close>: the whole text
  when the bytes happen to decode, or else the lines that are delivered before the
  decoding fails.\<close>

record 'w state =
  server :: 'w
  sent :: "request list"
  files :: "string \<Rightarrow> disk_file option"
  archive_text :: "disk_file \<Rightarrow> string + string list"
  tmpdir :: "(string \<times> tree) list"
  stdout :: "msg list"

definition print :: "msg \<Rightarrow> 'w state \<Rightarrow> 'w state" where
  "print m st = st\<lparr>stdout := stdout st @ [m]\<rparr>"

definition requests_get :: "'w env \<Rightarrow> string \<Rightarrow> headers \<Rightarrow> 'w state \<Rightarrow> response \<times> 'w state" where
  "requests_get env url hs st =
     (case http env (server st) (GET url hs) of
        (r, w) \<Rightarrow> (r, st\<lparr>server := w, sent := sent st @ [GET url hs]\<rparr>))"

definition requests_post :: "'w env \<Rightarrow> string \<Rightarrow> headers \<Rightarrow> string \<Rightarrow> 'w state \<Rightarrow> response \<times> 'w state" where
  "requests_post env url hs body st =
     (case http env (server st) (POST url hs body) of
        (r, w) \<Rightarrow> (r, st\<lparr>server := w, sent := sent st @ [POST url hs body]\<rparr>))"

subsection \<open>Reading a text file line by line\<close>

definition LF :: char where
  "LF = CHR 0x0A"

definition CR :: char where
  "CR = CHR 0x0D"

text \<open>\<^verbatim>\<open>open(name, 'r')\<close> reads with universal newlines: \<^verbatim>\<open>\r\n\<close> and a lone \<^verbatim>\<open>\r\<close> arrive
  as \<^verbatim>\<open>\n\<close>. Iterating the file gives the lines with their terminator; a last line
  without one is a line too.\<close>

fun universal_newlines :: "string \<Rightarrow> string" where
  "universal_newlines [] = []"
| "universal_newlines [c] = (if c = CR then [LF] else [c])"
| "universal_newlines (c # d # s) =
     (if c = CR \<and> d = LF then LF # universal_newlines s
      else if c = CR then LF # universal_newlines (d # s)
      else c # universal_newlines (d # s))"

fun split_lines :: "string \<Rightarrow> string \<Rightarrow> string list" where
  "split_lines cur [] = (if cur = [] then [] else [cur])"
| "split_lines cur (c # s) =
     (if c = LF then (cur @ [c]) # split_lines [] s else split_lines (cur @ [c]) s)"

definition readlines :: "string \<Rightarrow> string list" where
  "readlines content = split_lines [] (universal_newlines content)"

fun lookup_tree :: "(string \<times> tree) list \<Rightarrow> string list \<Rightarrow> error + tree" where
  "lookup_tree es [] = Inr (TDir es)"
| "lookup_tree es (n # ns) =
     (case map_of es n of
        None \<Rightarrow> Inl FileNotFoundError
      | Some (TFile c) \<Rightarrow> (if ns = [] then Inr (TFile c) else Inl NotADirectoryError)
      | Some (TDir ds) \<Rightarrow> lookup_tree ds ns)"

subsection \<open>Names of files\<close>

text \<open>
  A name is split at its slashes; empty components and \<^verbatim>\<open>.\<close> components do not count
  (for the system as for \<^verbatim>\<open>pathlib\<close>). Two names with the same parts, both absolute or both
  relative, are the same file: \<open>file_key\<close> is the canonical name. Parent components and
  links are not resolved, and the directories a name goes through are taken to exist.
\<close>

fun split_path :: "string \<Rightarrow> string \<Rightarrow> string list" where
  "split_path cur [] = [cur]"
| "split_path cur (c # s) =
     (if c = CHR ''/'' then cur # split_path [] s else split_path (cur @ [c]) s)"

definition path_parts :: "string \<Rightarrow> string list" where
  "path_parts name = filter (\<lambda>x. x \<noteq> [] \<and> x \<noteq> ''.'') (split_path [] name)"

fun join_path :: "string list \<Rightarrow> string" where
  "join_path [] = []"
| "join_path [x] = x"
| "join_path (x # y # ys) = x @ ''/'' @ join_path (y # ys)"

definition file_key :: "string \<Rightarrow> string" where
  "file_key name = (if take 1 name = ''/'' then ''/'' else []) @ join_path (path_parts name)"

text \<open>A name without parts is the current or the root directory, and a name whose last
  part is \<^verbatim>\<open>..\<close> is a directory too. A name as given that ends in a slash or in a \<^verbatim>\<open>.\<close>
  component asks the system for a directory; a \<^verbatim>\<open>Path\<close> object never does.\<close>

definition names_directory :: "string \<Rightarrow> bool" where
  "names_directory name = (path_parts name = [] \<or> last (path_parts name) = ''..'')"

definition wants_directory :: "string \<Rightarrow> bool" where
  "wants_directory name =
     (last (split_path [] name) = [] \<or> last (split_path [] name) = ''.'')"

text \<open>Opening an existing file by the string that was given, and by a \<^verbatim>\<open>Path\<close> object.\<close>

definition os_open :: "'w state \<Rightarrow> string \<Rightarrow> error + disk_file" where
  "os_open st name =
     (if name = [] then Inl FileNotFoundError
      else if names_directory name then Inl IsADirectoryError
      else (case files st (file_key name) of
              None \<Rightarrow> Inl FileNotFoundError
            | Some f \<Rightarrow> if wants_directory name then Inl NotADirectoryError else Inr f))"

definition path_open :: "'w state \<Rightarrow> string \<Rightarrow> error + disk_file" where
  "path_open st name =
     (if names_directory name then Inl IsADirectoryError
      else (case files st (file_key name) of
              None \<Rightarrow> Inl FileNotFoundError
            | Some f \<Rightarrow> Inr f))"

text \<open>Reading a file in text mode to its end: an archive whose bytes do not decode raises
  \<^verbatim>\<open>UnicodeDecodeError\<close>, after the lines of \<open>undecoded_lines\<close> have been delivered.\<close>

definition read_text :: "'w state \<Rightarrow> disk_file \<Rightarrow> error + string" where
  "read_text st f =
     (case f of
        Text c \<Rightarrow> Inr c
      | Zip ms \<Rightarrow> (case archive_text st f of Inl c \<Rightarrow> Inr c | Inr ls \<Rightarrow> Inl UnicodeDecodeError)
      | TarXz ms \<Rightarrow> (case archive_text st f of Inl c \<Rightarrow> Inr c | Inr ls \<Rightarrow> Inl UnicodeDecodeError))"

definition undecoded_lines :: "'w state \<Rightarrow> disk_file \<Rightarrow> string list" where
  "undecoded_lines st f =
     (case f of
        Text c \<Rightarrow> []
      | Zip ms \<Rightarrow> (case archive_text st f of Inl c \<Rightarrow> [] | Inr ls \<Rightarrow> ls)
      | TarXz ms \<Rightarrow> (case archive_text st f of Inl c \<Rightarrow> [] | Inr ls \<Rightarrow> ls))"

text \<open>\<^verbatim>\<open>open(name, 'r')\<close> and reading all of it.\<close>

definition open_read :: "'w state \<Rightarrow> path \<Rightarrow> error + string" where
  "open_read st p =
     (case p of
        UserPath name \<Rightarrow> bind_err (os_open st name) (read_text st)
      | PathObject name \<Rightarrow> bind_err (path_open st name) (read_text st)
      | TempPath ns \<Rightarrow>
          (case lookup_tree (tmpdir st) ns of
             Inl e \<Rightarrow> Inl e
           | Inr (TFile c) \<Rightarrow> Inr c
           | Inr (TDir ds) \<Rightarrow> Inl IsADirectoryError))"

text \<open>The lines that the loop over the file gets before the reading fails (none, but for
  an archive that decodes in part).\<close>

definition lines_before_failure :: "'w state \<Rightarrow> path \<Rightarrow> string list" where
  "lines_before_failure st p =
     (case p of
        UserPath name \<Rightarrow> (case os_open st name of Inl e \<Rightarrow> [] | Inr f \<Rightarrow> undecoded_lines st f)
      | PathObject name \<Rightarrow> (case path_open st name of Inl e \<Rightarrow> [] | Inr f \<Rightarrow> undecoded_lines st f)
      | TempPath ns \<Rightarrow> [])"

section \<open>The replay writer\<close>

text \<open>
  \<^verbatim>\<open>import_event\<close> builds the payload \<^verbatim>\<open>[{"eventId": .., "eventType": .., "data": ..}]\<close>
  from \<^verbatim>\<open>event['content']\<close>, posts it, and answers whether the status is 200 or 201.
\<close>

definition event_payload :: "json \<Rightarrow> error + json" where
  "event_payload event =
     bind_err (bind_err (getitem event ''content'') (\<lambda>c. getitem c ''eventId'')) (\<lambda>event_id.
     bind_err (bind_err (getitem event ''content'') (\<lambda>c. getitem c ''eventType'')) (\<lambda>event_type.
     bind_err (bind_err (getitem event ''content'') (\<lambda>c. getitem c ''data'')) (\<lambda>data.
       Inr (JArr [JObj [(''eventId'', event_id), (''eventType'', event_type), (''data'', data)]]))))"

definition import_event :: "'w env \<Rightarrow> string \<Rightarrow> json \<Rightarrow> headers \<Rightarrow> 'w state \<Rightarrow> (error + bool) \<times> 'w state" where
  "import_event env stream_url event hs st =
     (case event_payload event of
        Inl e \<Rightarrow> (Inl e, st)
      | Inr payload \<Rightarrow>
          (case requests_post env stream_url hs (dumps env payload) st of
             (response, st1) \<Rightarrow>
               if status_code response \<notin> {200, 201}
               then (Inr False, print (FailedUpload (status_code response) (resp_text response)) st1)
               else (Inr True, st1)))"

text \<open>The loop of \<^verbatim>\<open>import_events\<close> over the lines of the file, with its two counters.
  Only \<^verbatim>\<open>json.JSONDecodeError\<close> is caught; any other exception leaves the function.\<close>

fun import_lines ::
  "'w env \<Rightarrow> string \<Rightarrow> headers \<Rightarrow> string list \<Rightarrow> nat \<Rightarrow> nat \<Rightarrow> 'w state \<Rightarrow> (error + nat \<times> nat) \<times> 'w state" where
  "import_lines env stream_url hs [] success_count failure_count st =
     (Inr (success_count, failure_count), st)"
| "import_lines env stream_url hs (line # rest) success_count failure_count st =
     (case loads env line of
        None \<Rightarrow>
          import_lines env stream_url hs rest success_count failure_count
            (print (ErrorDecodingJSON line) st)
      | Some event \<Rightarrow>
          (case import_event env stream_url event hs st of
             (Inl e, st1) \<Rightarrow> (Inl e, st1)
           | (Inr ok, st1) \<Rightarrow>
               if ok then import_lines env stream_url hs rest (success_count + 1) failure_count st1
               else import_lines env stream_url hs rest success_count (failure_count + 1) st1))"

definition import_events :: "'w env \<Rightarrow> path \<Rightarrow> string \<Rightarrow> headers \<Rightarrow> 'w state \<Rightarrow> (error + unit) \<times> 'w state" where
  "import_events env filename stream_url hs st =
     (case open_read st filename of
        Inl e \<Rightarrow>
          (case import_lines env stream_url hs (lines_before_failure st filename) 0 0 st of
             (Inl e', st1) \<Rightarrow> (Inl e', st1)
           | (Inr counts, st1) \<Rightarrow> (Inl e, st1))
      | Inr content \<Rightarrow>
          (case import_lines env stream_url hs (readlines content) 0 0 st of
             (Inl e, st1) \<Rightarrow> (Inl e, st1)
           | (Inr (success_count, failure_count), st1) \<Rightarrow>
               (Inr (),
                print (if failure_count > 0
                       then UploadedWithFailures success_count failure_count
                       else Uploaded success_count) st1)))"

subsection \<open>Vocabulary for the statements about the replay writer\<close>

text \<open>A decoded line is a well-formed event record when \<^verbatim>\<open>event['content']\<close> has the three
  fields the payload is built from.\<close>

definition well_formed_event :: "json \<Rightarrow> bool" where
  "well_formed_event event = (case event_payload event of Inl e \<Rightarrow> False | Inr p \<Rightarrow> True)"

definition payload_of :: "json \<Rightarrow> json" where
  "payload_of event = (case event_payload event of Inl e \<Rightarrow> JNull | Inr p \<Rightarrow> p)"

definition append_request :: "'w env \<Rightarrow> string \<Rightarrow> headers \<Rightarrow> json \<Rightarrow> request" where
  "append_request env stream_url hs event = POST stream_url hs (dumps env (payload_of event))"

definition parsed_lines :: "'w env \<Rightarrow> string list \<Rightarrow> json list" where
  "parsed_lines env ls = List.map_filter (loads env) ls"

definition accepted :: "response \<Rightarrow> bool" where
  "accepted r = (status_code r = 200 \<or> status_code r = 201)"

text \<open>The responses the server gives to a sequence of requests, and its state after them.\<close>

fun replies :: "'w env \<Rightarrow> 'w \<Rightarrow> request list \<Rightarrow> response list" where
  "replies env w [] = []"
| "replies env w (r # rs) = (case http env w r of (resp, w') \<Rightarrow> resp # replies env w' rs)"

fun server_after :: "'w env \<Rightarrow> 'w \<Rightarrow> request list \<Rightarrow> 'w" where
  "server_after env w [] = w"
| "server_after env w (r # rs) = (case http env w r of (resp, w') \<Rightarrow> server_after env w' rs)"

section \<open>The paginated reader\<close>

text \<open>
  \<^verbatim>\<open>next((link for link in data['links'] if link['relation'] == 'next'), None)\<close>: the
  generator stops at the first link whose relation is \<^verbatim>\<open>'next'\<close>; links behind it are
  never looked at.
\<close>

fun find_next :: "json list \<Rightarrow> error + json option" where
  "find_next [] = Inr None"
| "find_next (link # links) =
     (case getitem link ''relation'' of
        Inl e \<Rightarrow> Inl e
      | Inr r \<Rightarrow> if r = JStr ''next'' then Inr (Some link) else find_next links)"

text \<open>One round of the loop after the page has been decoded: the entries to append and the
  next value of \<^verbatim>\<open>stream_url\<close> (\<open>None\<close> for \<^verbatim>\<open>break\<close>).\<close>

definition read_page :: "json \<Rightarrow> error + (json list \<times> json option)" where
  "read_page data =
     bind_err (getitem data ''entries'') (\<lambda>entries.
     bind_err (py_iter entries) (\<lambda>es.
     bind_err (getitem data ''links'') (\<lambda>ls.
     bind_err (py_iter ls) (\<lambda>links.
     bind_err (find_next links) (\<lambda>prev_link.
       case prev_link of
         None \<Rightarrow> Inr (es, None)
       | Some link \<Rightarrow>
           if truthy link then bind_err (getitem link ''uri'') (\<lambda>uri. Inr (es, Some uri))
           else Inr (es, None))))))"

text \<open>The \<^verbatim>\<open>while stream_url:\<close> loop. Nothing bounds the number of pages, so the loop may
  run forever: \<open>None\<close> is that case. A value that is no string cannot be requested.\<close>

partial_function (option) get_stream_events_loop ::
  "'w env \<Rightarrow> headers \<Rightarrow> json \<Rightarrow> json list \<Rightarrow> 'w state \<Rightarrow> ((error + json list) \<times> 'w state) option" where
  "get_stream_events_loop env hs stream_url events st =
     (if \<not> truthy stream_url then Some (Inr events, st)
      else (case stream_url of
        JStr url \<Rightarrow>
          (case requests_get env url hs st of
             (response, st1) \<Rightarrow>
               if status_code response \<noteq> 200
               then Some (Inr events, print (FailedFetchPage (status_code response)) st1)
               else (case resp_json response of
                  None \<Rightarrow> Some (Inl JSONDecodeError, st1)
                | Some data \<Rightarrow>
                    (case read_page data of
                       Inl e \<Rightarrow> Some (Inl e, st1)
                     | Inr (es, None) \<Rightarrow> Some (Inr (events @ es), st1)
                     | Inr (es, Some next_url) \<Rightarrow>
                         get_stream_events_loop env hs next_url (events @ es) st1)))
      | _ \<Rightarrow> Some (Inl RequestException, st)))"

declare get_stream_events_loop.simps [code]

definition get_stream_events ::
  "'w env \<Rightarrow> string \<Rightarrow> headers \<Rightarrow> 'w state \<Rightarrow> ((error + json list) \<times> 'w state) option" where
  "get_stream_events env stream_url hs st = get_stream_events_loop env hs (JStr stream_url) [] st"

section \<open>The event materializer\<close>

text \<open>\<^verbatim>\<open>entry['links'][0]['uri']\<close>: the address of the event is the first link of the entry.\<close>

definition event_url_of :: "json \<Rightarrow> error + json" where
  "event_url_of entry =
     bind_err (bind_err (getitem entry ''links'') getindex0) (\<lambda>link. getitem link ''uri'')"

text \<open>The loop of \<^verbatim>\<open>export_events_to_file\<close> over the reversed entries; \<open>written\<close> is what
  has been written to the open file so far. An exception ends the loop and leaves what was
  written.\<close>

fun export_entries ::
  "'w env \<Rightarrow> headers \<Rightarrow> json list \<Rightarrow> string \<Rightarrow> 'w state \<Rightarrow> (error option \<times> string) \<times> 'w state" where
  "export_entries env hs [] written st = ((None, written), st)"
| "export_entries env hs (entry # rest) written st =
     (case event_url_of entry of
        Inl e \<Rightarrow> ((Some e, written), st)
      | Inr event_url \<Rightarrow>
          (case event_url of
             JStr url \<Rightarrow>
               (case requests_get env url hs st of
                  (event_response, st1) \<Rightarrow>
                    if status_code event_response = 200
                    then (case resp_json event_response of
                            None \<Rightarrow> ((Some JSONDecodeError, written), st1)
                          | Some event_data \<Rightarrow>
                              export_entries env hs rest (written @ dumps env event_data @ [LF]) st1)
                    else export_entries env hs rest written st1)
           | _ \<Rightarrow> ((Some RequestException, written), st)))"

text \<open>\<^verbatim>\<open>open(name, 'w')\<close> creates or empties the file; for a path of the user it succeeds
  unless the name is that of a directory (the directories it goes through are there and
  can be written). In the temporary directory only a file directly below it can be
  created.\<close>

definition writable :: "path \<Rightarrow> bool" where
  "writable p =
     (case p of
        UserPath name \<Rightarrow> name \<noteq> [] \<and> \<not> names_directory name \<and> \<not> wants_directory name
      | PathObject name \<Rightarrow> \<not> names_directory name
      | TempPath ns \<Rightarrow> length ns = 1)"

definition open_error :: "'w state \<Rightarrow> path \<Rightarrow> error" where
  "open_error st p =
     (case p of
        UserPath name \<Rightarrow>
          if name = [] then FileNotFoundError
          else if names_directory name then IsADirectoryError
          else (case files st (file_key name) of
                  None \<Rightarrow> IsADirectoryError
                | Some f \<Rightarrow> NotADirectoryError)
      | PathObject name \<Rightarrow> IsADirectoryError
      | TempPath ns \<Rightarrow> FileNotFoundError)"

fun update_entry :: "string \<Rightarrow> tree \<Rightarrow> (string \<times> tree) list \<Rightarrow> (string \<times> tree) list" where
  "update_entry n t [] = [(n, t)]"
| "update_entry n t ((m, u) # es) = (if m = n then (n, t) # es else (m, u) # update_entry n t es)"

definition write_file :: "path \<Rightarrow> string \<Rightarrow> 'w state \<Rightarrow> 'w state" where
  "write_file p content st =
     (case p of
        UserPath name \<Rightarrow> st\<lparr>files := (files st)(file_key name \<mapsto> Text content)\<rparr>
      | PathObject name \<Rightarrow> st\<lparr>files := (files st)(file_key name \<mapsto> Text content)\<rparr>
      | TempPath ns \<Rightarrow>
          (case ns of
             [n] \<Rightarrow> st\<lparr>tmpdir := update_entry n (TFile content) (tmpdir st)\<rparr>
           | _ \<Rightarrow> st))"

definition export_events_to_file ::
  "'w env \<Rightarrow> path \<Rightarrow> json list \<Rightarrow> headers \<Rightarrow> 'w state \<Rightarrow> (error + unit) \<times> 'w state" where
  "export_events_to_file env event_file_path events hs st =
     (if \<not> writable event_file_path then (Inl (open_error st event_file_path), st)
      else (case export_entries env hs (rev events) [] (write_file event_file_path [] st) of
        ((None, written), st1) \<Rightarrow> (Inr (), write_file event_file_path written st1)
      | ((Some e, written), st1) \<Rightarrow> (Inl e, write_file event_file_path written st1)))"

text \<open>The same functions as \<^verbatim>\<open>export-stream.py\<close> has them: the headers are a global there,
  and \<^verbatim>\<open>export_events\<close> is what \<^verbatim>\<open>export_events_to_file\<close> is here.\<close>

definition legacy_headers :: headers where
  "legacy_headers = [(''Accept'', ''application/vnd.eventstore.atom+json'')]"

definition legacy_get_stream_events ::
  "'w env \<Rightarrow> string \<Rightarrow> 'w state \<Rightarrow> ((error + json list) \<times> 'w state) option" where
  "legacy_get_stream_events env stream_url st =
     get_stream_events_loop env legacy_headers (JStr stream_url) [] st"

definition legacy_export_events ::
  "'w env \<Rightarrow> json list \<Rightarrow> string \<Rightarrow> 'w state \<Rightarrow> (error + unit) \<times> 'w state" where
  "legacy_export_events env events filename st =
     (if \<not> writable (UserPath filename) then (Inl (open_error st (UserPath filename)), st)
      else (case export_entries env legacy_headers (rev events) [] (write_file (UserPath filename) [] st) of
        ((None, written), st1) \<Rightarrow> (Inr (), write_file (UserPath filename) written st1)
      | ((Some e, written), st1) \<Rightarrow> (Inl e, write_file (UserPath filename) written st1)))"

section \<open>The archive codec\<close>

text \<open>\<^verbatim>\<open>''.join(Path(file_name).suffixes)\<close>, as \<^verbatim>\<open>pathlib\<close> computes it for a POSIX path:
  the final component of the path (empty and \<^verbatim>\<open>.\<close> components do not count), leading dots
  removed, from its first dot on; nothing when the name ends with a dot.\<close>

definition path_name :: "string \<Rightarrow> string" where
  "path_name p =
     (case filter (\<lambda>x. x \<noteq> [] \<and> x \<noteq> ''.'') (split_path [] p) of
        [] \<Rightarrow> []
      | part # parts \<Rightarrow> last (part # parts))"

definition extension_of :: "string \<Rightarrow> string" where
  "extension_of p =
     (let name = path_name p in
      if name \<noteq> [] \<and> last name = CHR ''.'' then []
      else dropWhile (\<lambda>c. c \<noteq> CHR ''.'') (dropWhile (\<lambda>c. c = CHR ''.'') name))"

definition endswith :: "string \<Rightarrow> string \<Rightarrow> bool" where
  "endswith s suffix = (length suffix \<le> length s \<and> drop (length s - length suffix) s = suffix)"

text \<open>\<^verbatim>\<open>zipfile.ZipFile(file_path, 'w')\<close> and \<^verbatim>\<open>tarfile.open(file_path)\<close> create the
  archive at the \<^verbatim>\<open>Path\<close> object; \<^verbatim>\<open>zipf.write(temp_file_path, arcname=temp_file_path.name)\<close>
  and \<^verbatim>\<open>tar.add\<close> give it one member, the temporary file, under the name
  \<^verbatim>\<open>events.json\<close>.\<close>

definition write_archive ::
  "(tree \<Rightarrow> disk_file) \<Rightarrow> string \<Rightarrow> 'w state \<Rightarrow> error + 'w state" where
  "write_archive container file_name st =
     (if names_directory file_name then Inl IsADirectoryError
      else (case lookup_tree (tmpdir st) [''events.json''] of
              Inl e \<Rightarrow> Inl e
            | Inr member \<Rightarrow>
                Inr (st\<lparr>files := (files st)(file_key file_name \<mapsto> container member)\<rparr>)))"

definition compress ::
  "string \<Rightarrow> string \<Rightarrow> 'w state \<Rightarrow> error + 'w state" where
  "compress extension file_name st =
     (if extension = ''.zip''
      then write_archive (\<lambda>member. Zip [(''events.json'', member)]) file_name st
      else if extension = ''.tar.xz''
      then write_archive (\<lambda>member. TarXz [(''events.json'', member)]) file_name st
      else Inr st)"

text \<open>\<^verbatim>\<open>export_events\<close>. The file is written at \<^verbatim>\<open>Path(file_name)\<close>. The temporary
  directory is empty when the \<^verbatim>\<open>with\<close> block is entered and gone when it is left, on
  every way out.\<close>

definition export_events ::
  "'w env \<Rightarrow> json list \<Rightarrow> string \<Rightarrow> headers \<Rightarrow> 'w state \<Rightarrow> (error + unit) \<times> 'w state" where
  "export_events env events file_name hs st =
     (let extension = extension_of file_name in
      if extension \<in> {''.json'', []} then
        export_events_to_file env (PathObject file_name) events hs st
      else if extension \<in> {''.zip'', ''.tar.xz''} then
        (case export_events_to_file env (TempPath [''events.json'']) events hs (st\<lparr>tmpdir := []\<rparr>) of
           (Inl e, st1) \<Rightarrow> (Inl e, st1\<lparr>tmpdir := []\<rparr>)
         | (Inr u, st1) \<Rightarrow>
             (case compress extension file_name (print (Compressing file_name) st1) of
                Inl e \<Rightarrow> (Inl e, (print (Compressing file_name) st1)\<lparr>tmpdir := []\<rparr>)
              | Inr st2 \<Rightarrow> (Inr (), (print (Compressed file_name) st2)\<lparr>tmpdir := []\<rparr>)))
      else (Inr (), print (UnsupportedFileType extension) st))"

text \<open>\<^verbatim>\<open>zipfile.ZipFile(filename, 'r').extractall\<close> and \<^verbatim>\<open>tarfile.open(filename)\<close> open
  the file by the string that was given; a file of the other kind is refused by the
  library.\<close>

definition extract_archive ::
  "string \<Rightarrow> string \<Rightarrow> 'w state \<Rightarrow> error + 'w state" where
  "extract_archive extension filename st =
     (if extension = ''.zip'' then
        (case os_open st filename of
           Inl e \<Rightarrow> Inl e
         | Inr (Zip members) \<Rightarrow> Inr (st\<lparr>tmpdir := members\<rparr>)
         | Inr (Text c) \<Rightarrow> Inl BadZipFile
         | Inr (TarXz members) \<Rightarrow> Inl BadZipFile)
      else if extension = ''.tar.xz'' then
        (case os_open st filename of
           Inl e \<Rightarrow> Inl e
         | Inr (TarXz members) \<Rightarrow> Inr (st\<lparr>tmpdir := members\<rparr>)
         | Inr (Text c) \<Rightarrow> Inl ReadError
         | Inr (Zip members) \<Rightarrow> Inl ReadError)
      else Inr st)"

text \<open>\<^verbatim>\<open>os.walk(temp_dir)\<close> yields one triple for the directory and then those of its
  subdirectories, top down; only \<^verbatim>\<open>root\<close> is used by the caller. A root is the list of
  directory names below the temporary directory.\<close>

fun walk_tree :: "string list \<Rightarrow> tree \<Rightarrow> string list list"
  and walk_entries :: "string list \<Rightarrow> (string \<times> tree) list \<Rightarrow> string list list" where
  "walk_tree root_dir (TFile c) = []"
| "walk_tree root_dir (TDir es) = root_dir # walk_entries root_dir es"
| "walk_entries root_dir [] = []"
| "walk_entries root_dir (e # es) = walk_tree (root_dir @ [fst e]) (snd e) @ walk_entries root_dir es"

definition os_walk :: "(string \<times> tree) list \<Rightarrow> string list list" where
  "os_walk entries = walk_tree [] (TDir entries)"

text \<open>\<^verbatim>\<open>for json_file in json_files: import_events(os.path.join(root, json_file), ..)\<close>\<close>

fun import_json_files ::
  "'w env \<Rightarrow> string list \<Rightarrow> string list \<Rightarrow> string \<Rightarrow> headers \<Rightarrow> 'w state \<Rightarrow> (error + unit) \<times> 'w state" where
  "import_json_files env root_dir [] stream_url hs st = (Inr (), st)"
| "import_json_files env root_dir (json_file # rest) stream_url hs st =
     (case import_events env (TempPath (root_dir @ [json_file])) stream_url hs st of
        (Inl e, st1) \<Rightarrow> (Inl e, st1)
      | (Inr u, st1) \<Rightarrow> import_json_files env root_dir rest stream_url hs st1)"

text \<open>The body of \<^verbatim>\<open>for root, dirs, files in os.walk(temp_dir)\<close>: in every round the names
  of \<^verbatim>\<open>os.listdir(temp_dir)\<close> that end in \<^verbatim>\<open>.json\<close> are counted, whatever \<^verbatim>\<open>root\<close> is.\<close>

fun import_walk ::
  "'w env \<Rightarrow> string list list \<Rightarrow> string \<Rightarrow> headers \<Rightarrow> 'w state \<Rightarrow> (error + unit) \<times> 'w state" where
  "import_walk env [] stream_url hs st = (Inr (), st)"
| "import_walk env (root_dir # roots) stream_url hs st =
     (let json_files = filter (\<lambda>f. endswith f ''.json'') (map fst (tmpdir st)) in
      if length json_files > 1 then (Inl SystemExit, print ErrorMultipleJson st)
      else if length json_files = 0 then (Inl SystemExit, print ErrorNoJson st)
      else (case import_json_files env root_dir json_files stream_url hs st of
              (Inl e, st1) \<Rightarrow> (Inl e, st1)
            | (Inr u, st1) \<Rightarrow> import_walk env roots stream_url hs st1))"

definition process_import_file ::
  "'w env \<Rightarrow> string \<Rightarrow> string \<Rightarrow> headers \<Rightarrow> 'w state \<Rightarrow> (error + unit) \<times> 'w state" where
  "process_import_file env filename stream_url hs st =
     (let extension = extension_of filename in
      if extension \<in> {''.json'', []} then
        import_events env (UserPath filename) stream_url hs st
      else if extension \<in> {''.zip'', ''.tar.xz''} then
        (case extract_archive extension filename (print (Extracting filename) (st\<lparr>tmpdir := []\<rparr>)) of
           Inl e \<Rightarrow> (Inl e, (print (Extracting filename) st)\<lparr>tmpdir := []\<rparr>)
         | Inr st1 \<Rightarrow>
             (case import_walk env (os_walk (tmpdir st1)) stream_url hs (print (Extracted filename) st1) of
                (r, st2) \<Rightarrow> (r, st2\<lparr>tmpdir := []\<rparr>)))
      else (Inr (), print (UnsupportedFileType extension) st))"

section \<open>Stream discovery\<close>

definition command_headers :: headers where
  "command_headers = [(''Content-Length'', ''0'')]"

definition status_headers :: headers where
  "status_headers = [(''Accept'', ''application/json'')]"

text \<open>\<^verbatim>\<open>data.get("progress", 0)\<close> needs a dict; \<^verbatim>\<open>progress >= 100.0\<close> needs a number (a
  Python \<^verbatim>\<open>bool\<close> is one: 0 or 1).\<close>

fun dict_get :: "json \<Rightarrow> string \<Rightarrow> json \<Rightarrow> error + json" where
  "dict_get (JObj kvs) k d = (case map_of kvs k of None \<Rightarrow> Inr d | Some v \<Rightarrow> Inr v)"
| "dict_get _ k d = Inl AttributeError"

fun ge_100 :: "json \<Rightarrow> error + bool" where
  "ge_100 (JInt i) = Inr (i \<ge> 100)"
| "ge_100 (JFloat q) = Inr (q \<ge> 100)"
| "ge_100 (JBool b) = Inr False"
| "ge_100 _ = Inl TypeError"

text \<open>The polling loop of \<^verbatim>\<open>run_projection\<close>; it has no bound, so it may run forever.\<close>

partial_function (option) poll_projection ::
  "'w env \<Rightarrow> string \<Rightarrow> 'w state \<Rightarrow> ((error + unit) \<times> 'w state) option" where
  "poll_projection env status_url st =
     (case requests_get env status_url status_headers st of
        (response, st1) \<Rightarrow>
          if status_code response = 200 then
            (case resp_json response of
               None \<Rightarrow> Some (Inl JSONDecodeError, st1)
             | Some data \<Rightarrow>
                 (case bind_err (dict_get data ''progress'' (JInt 0)) ge_100 of
                    Inl e \<Rightarrow> Some (Inl e, st1)
                  | Inr done \<Rightarrow>
                      if done then Some (Inr (), st1)
                      else poll_projection env status_url st1))
          else Some (Inr (), print (FailedProjectionStatus (status_code response)) st1))"

declare poll_projection.simps [code]

definition run_projection ::
  "'w env \<Rightarrow> string \<Rightarrow> string \<Rightarrow> 'w state \<Rightarrow> ((error + unit) \<times> 'w state) option" where
  "run_projection env base_url projection_name st =
     (let enable_url = base_url @ ''/projection/'' @ projection_name @ ''/command/enable'';
          disable_url = base_url @ ''/projection/'' @ projection_name @ ''/command/disable'';
          status_url = base_url @ ''/projection/'' @ projection_name
      in case requests_post env enable_url command_headers [] st of
        (response, st1) \<Rightarrow>
          if status_code response \<noteq> 200
          then Some (Inl SystemExit, print (FailedStartProjection (status_code response)) st1)
          else (case poll_projection env status_url st1 of
             None \<Rightarrow> None
           | Some (Inl e, st2) \<Rightarrow> Some (Inl e, st2)
           | Some (Inr u, st2) \<Rightarrow>
               (case requests_post env disable_url command_headers [] st2 of
                  (response2, st3) \<Rightarrow>
                    if status_code response2 \<noteq> 200
                    then Some (Inr (), print (FailedStopProjection (status_code response2)) st3)
                    else Some (Inr (), st3))))"

text \<open>\<^verbatim>\<open>s.replace(old, new, 1)\<close>: the first occurrence of \<open>old\<close>, wherever it stands.\<close>

fun replace_first :: "string \<Rightarrow> string \<Rightarrow> string \<Rightarrow> string" where
  "replace_first old new [] = (if old = [] then new else [])"
| "replace_first old new (c # s) =
     (if take (length old) (c # s) = old then new @ drop (length old) (c # s)
      else c # replace_first old new s)"

text \<open>\<^verbatim>\<open>entry['title'].replace('0@', '', 1)\<close>: only a string has \<^verbatim>\<open>replace\<close>.\<close>

definition stream_name_of :: "json \<Rightarrow> error + string" where
  "stream_name_of entry =
     bind_err (getitem entry ''title'') (\<lambda>title.
       case title of
         JStr s \<Rightarrow> Inr (replace_first ''0@'' [] s)
       | _ \<Rightarrow> Inl AttributeError)"

fun stream_names :: "json list \<Rightarrow> error + string list" where
  "stream_names [] = Inr []"
| "stream_names (entry # entries) =
     bind_err (stream_name_of entry) (\<lambda>name.
     bind_err (stream_names entries) (\<lambda>names. Inr (name # names)))"

definition get_available_streams ::
  "'w env \<Rightarrow> string \<Rightarrow> headers \<Rightarrow> 'w state \<Rightarrow> ((error + string list option) \<times> 'w state) option" where
  "get_available_streams env base_url hs st =
     (case run_projection env base_url ''$streams'' st of
        None \<Rightarrow> None
      | Some (Inl e, st1) \<Rightarrow> Some (Inl e, st1)
      | Some (Inr u, st1) \<Rightarrow>
          (case requests_get env (base_url @ ''/streams/$streams'') hs st1 of
             (response, st2) \<Rightarrow>
               if status_code response = 200 then
                 (case resp_json response of
                    None \<Rightarrow> Some (Inl JSONDecodeError, st2)
                  | Some data \<Rightarrow>
                      (case bind_err (bind_err (getitem data ''entries'') py_iter) stream_names of
                         Inl e \<Rightarrow> Some (Inl e, st2)
                       | Inr streams \<Rightarrow> Some (Inr (Some streams), st2)))
               else Some (Inr None, print (FailedListStreams (status_code response)) st2)))"

section \<open>Vocabulary for the statements about reading and exporting\<close>

text \<open>An entry is well formed when the address of its event is a string.\<close>

definition well_formed_entry :: "json \<Rightarrow> bool" where
  "well_formed_entry entry = (case event_url_of entry of Inr (JStr url) \<Rightarrow> True | _ \<Rightarrow> False)"

definition url_of :: "json \<Rightarrow> string" where
  "url_of entry = (case event_url_of entry of Inr (JStr url) \<Rightarrow> url | _ \<Rightarrow> [])"

definition fetch_requests :: "headers \<Rightarrow> json list \<Rightarrow> request list" where
  "fetch_requests hs entries = map (\<lambda>entry. GET (url_of entry) hs) entries"

text \<open>A fetched event: status 200 and a body that decodes.\<close>

definition fetched :: "response \<Rightarrow> bool" where
  "fetched r = (status_code r = 200)"

definition decodable :: "response \<Rightarrow> bool" where
  "decodable r = (case resp_json r of None \<Rightarrow> False | Some j \<Rightarrow> True)"

definition body_of :: "response \<Rightarrow> json" where
  "body_of r = (case resp_json r of None \<Rightarrow> JNull | Some j \<Rightarrow> j)"

definition record_line :: "'w env \<Rightarrow> json \<Rightarrow> string" where
  "record_line env event = dumps env event @ [LF]"

text \<open>What the materializer writes for a list of entries, from the server state \<open>w\<close> on:
  one line for each fetched event, in the order of the reversed list.\<close>

definition exported_text :: "'w env \<Rightarrow> headers \<Rightarrow> json list \<Rightarrow> 'w \<Rightarrow> string" where
  "exported_text env hs entries w =
     concat (map (\<lambda>r. record_line env (body_of r))
               (filter fetched (replies env w (fetch_requests hs (rev entries)))))"

text \<open>What the library's codec is relied on for, for one value: \<^verbatim>\<open>json.dumps\<close> writes no
  line break, and \<^verbatim>\<open>json.loads\<close> reads the written line back.\<close>

definition codec_ok :: "'w env \<Rightarrow> json \<Rightarrow> bool" where
  "codec_ok env j =
     (LF \<notin> set (dumps env j) \<and> CR \<notin> set (dumps env j) \<and> loads env (dumps env j @ [LF]) = Some j)"

text \<open>A page as the reader needs it: \<^verbatim>\<open>data['entries']\<close> is the list \<open>es\<close>, and
  \<^verbatim>\<open>data['links']\<close> is a list of links, each with a relation and an address.\<close>

definition link_is :: "json \<Rightarrow> string \<times> string \<Rightarrow> bool" where
  "link_is link ru =
     (getitem link ''relation'' = Inr (JStr (fst ru)) \<and> getitem link ''uri'' = Inr (JStr (snd ru)))"

definition page_is :: "json \<Rightarrow> json list \<Rightarrow> (string \<times> string) list \<Rightarrow> bool" where
  "page_is data es links =
     (getitem data ''entries'' = Inr (JArr es) \<and>
      (case getitem data ''links'' of Inr (JArr ls) \<Rightarrow> list_all2 link_is ls links | _ \<Rightarrow> False))"

definition next_url :: "(string \<times> string) list \<Rightarrow> string option" where
  "next_url links = map_option snd (find (\<lambda>l. fst l = ''next'') links)"

definition is_2xx :: "int \<Rightarrow> bool" where
  "is_2xx s = (200 \<le> s \<and> s < 300)"

definition is_200 :: "int \<Rightarrow> bool" where
  "is_200 s = (s = 200)"

text \<open>
  A chain of linked pages, as the server serves it from the state \<open>w\<close> on: the fetch of
  \<open>url\<close> has a status that \<open>ok\<close> accepts and gives the first page; every page but the last
  has a \<^verbatim>\<open>next\<close> link, with the address of the page that follows; the last has none.
\<close>

fun page_chain ::
  "'w env \<Rightarrow> headers \<Rightarrow> (int \<Rightarrow> bool) \<Rightarrow> 'w \<Rightarrow> string \<Rightarrow> (json list \<times> (string \<times> string) list) list \<Rightarrow> bool" where
  "page_chain env hs ok w url [] = False"
| "page_chain env hs ok w url (p # ps) =
     (url \<noteq> [] \<and>
      (case http env w (GET url hs) of
         (r, w') \<Rightarrow>
           ok (status_code r) \<and>
           (case resp_json r of None \<Rightarrow> False | Some data \<Rightarrow> page_is data (fst p) (snd p)) \<and>
           (case next_url (snd p) of
              None \<Rightarrow> ps = []
            | Some u \<Rightarrow> ps \<noteq> [] \<and> page_chain env hs ok w' u ps)))"

text \<open>The same chain, cut by a failed fetch: the pages of the list are served and linked,
  and the fetch of the page that would follow has a status that \<open>ok\<close> rejects.\<close>

fun broken_chain ::
  "'w env \<Rightarrow> headers \<Rightarrow> (int \<Rightarrow> bool) \<Rightarrow> 'w \<Rightarrow> string \<Rightarrow> (json list \<times> (string \<times> string) list) list \<Rightarrow> bool" where
  "broken_chain env hs ok w url [] =
     (url \<noteq> [] \<and> \<not> ok (status_code (fst (http env w (GET url hs)))))"
| "broken_chain env hs ok w url (p # ps) =
     (url \<noteq> [] \<and>
      (case http env w (GET url hs) of
         (r, w') \<Rightarrow>
           ok (status_code r) \<and>
           (case resp_json r of None \<Rightarrow> False | Some data \<Rightarrow> page_is data (fst p) (snd p)) \<and>
           (case next_url (snd p) of
              None \<Rightarrow> False
            | Some u \<Rightarrow> broken_chain env hs ok w' u ps)))"

text \<open>The archive that \<^verbatim>\<open>export_events\<close> writes: one member, \<^verbatim>\<open>events.json\<close>.\<close>

definition archive_of :: "string \<Rightarrow> string \<Rightarrow> disk_file" where
  "archive_of extension content =
     (if extension = ''.zip'' then Zip [(''events.json'', TFile content)]
      else TarXz [(''events.json'', TFile content)])"

section \<open>A small server for the concrete runs\<close>

text \<open>
  A stream \<^verbatim>\<open>s\<close> of two events, served newest first on two pages; a page \<^verbatim>\<open>t\<close> served
  with status 203; an event address that is gone; a projection whose progress reaches 100
  at the third request; two stream indexes; a stream \<^verbatim>\<open>r\<close> whose second page is gone. The state counts the requests. Appends are
  accepted with 201, but for the record \<^verbatim>\<open>b\<close>, which is refused.
\<close>

definition demo_event :: "string \<Rightarrow> string \<Rightarrow> json" where
  "demo_event i t =
     JObj [(''title'', JStr (''0@'' @ t)),
           (''content'', JObj [(''eventId'', JStr i), (''eventType'', JStr t), (''data'', JObj [])])]"

definition demo_entry :: "string \<Rightarrow> json" where
  "demo_entry u =
     JObj [(''title'', JStr u), (''links'', JArr [JObj [(''uri'', JStr u), (''relation'', JStr ''edit'')]])]"

definition demo_link :: "string \<times> string \<Rightarrow> json" where
  "demo_link ru = JObj [(''uri'', JStr (snd ru)), (''relation'', JStr (fst ru))]"

definition demo_page :: "json list \<Rightarrow> (string \<times> string) list \<Rightarrow> json" where
  "demo_page es links = JObj [(''entries'', JArr es), (''links'', JArr (map demo_link links))]"

definition demo_response :: "int \<Rightarrow> json option \<Rightarrow> response" where
  "demo_response s j = \<lparr>status_code = s, resp_text = [], resp_json = j\<rparr>"

definition demo_http :: "nat \<Rightarrow> request \<Rightarrow> response \<times> nat" where
  "demo_http w req =
     (case req of
        GET url hs \<Rightarrow>
          (if url = ''s'' then
             demo_response 200 (Some (demo_page [demo_entry ''s/1''] [(''self'', ''s''), (''next'', ''s?p2'')]))
           else if url = ''s?p2'' then
             demo_response 200 (Some (demo_page [demo_entry ''s/0''] [(''self'', ''s?p2'')]))
           else if url = ''s/0'' then demo_response 200 (Some (demo_event ''a'' ''T1''))
           else if url = ''s/1'' then demo_response 200 (Some (demo_event ''b'' ''T2''))
           else if url = ''r'' then
             demo_response 200 (Some (demo_page [demo_entry ''s/1''] [(''next'', ''r?p2'')]))
           else if url = ''t'' then
             demo_response 203 (Some (demo_page [demo_entry ''s/0''] [(''self'', ''t'')]))
           else if url = ''b/projection/$streams'' \<or> url = ''c/projection/$streams'' then
             demo_response 200 (Some (JObj [(''progress'', JFloat (if w < 2 then 50 else 100))]))
           else if url = ''b/streams/$streams'' then
             demo_response 200
               (Some (demo_page [JObj [(''title'', JStr ''0@orders'')], JObj [(''title'', JStr ''0@s'')]] []))
           else if url = ''c/streams/$streams'' then
             demo_response 200
               (Some (demo_page [JObj [(''title'', JStr ''0@orders'')], JObj [(''title'', JStr ''10@$streams'')]] []))
           else demo_response 404 None)
      | POST url hs body \<Rightarrow>
          (if body = [] then demo_response 200 None
           else if body = ''[b]'' then demo_response 400 None
           else demo_response 201 None),
      Suc w)"

definition demo_dumps :: "json \<Rightarrow> string" where
  "demo_dumps j =
     (if j = demo_event ''a'' ''T1'' then ''{a}''
      else if j = demo_event ''b'' ''T2'' then ''{b}''
      else if j = payload_of (demo_event ''a'' ''T1'') then ''[a]''
      else if j = payload_of (demo_event ''b'' ''T2'') then ''[b]''
      else ''null'')"

definition demo_loads :: "string \<Rightarrow> json option" where
  "demo_loads s =
     (if s = ''{a}'' @ [LF] then Some (demo_event ''a'' ''T1'')
      else if s = ''{b}'' @ [LF] then Some (demo_event ''b'' ''T2'')
      else if s = ''{}'' @ [LF] then Some (JObj [])
      else None)"

definition demo_env :: "nat env" where
  "demo_env = \<lparr>http = demo_http, dumps = demo_dumps, loads = demo_loads\<rparr>"

definition demo_state :: "nat state" where
  "demo_state =
     \<lparr>server = 0, sent = [], files = Map.empty, archive_text = (\<lambda>f. Inr []),
      tmpdir = [], stdout = []\<rparr>"

text \<open>The initial state with one text file, \<^verbatim>\<open>f.json\<close>.\<close>

definition demo_file :: "string \<Rightarrow> nat state" where
  "demo_file content = demo_state\<lparr>files := [''f.json'' \<mapsto> Text content]\<rparr>"

text \<open>An archive with one record file at its top and another one in a subdirectory.\<close>

definition demo_nested_archive :: disk_file where
  "demo_nested_archive =
     Zip [(''a.json'', TFile (''{a}'' @ [LF])),
          (''sub'', TDir [(''b.json'', TFile (''{b}'' @ [LF]))])]"

section \<open>Unfolding sets for the concrete runs\<close>

lemmas demo_defs =
  demo_file_def demo_state_def demo_env_def demo_loads_def demo_dumps_def demo_event_def
  demo_http_def demo_response_def demo_entry_def demo_page_def demo_link_def LF_def CR_def

lemmas fs_defs =
  open_read_def os_open_def path_open_def read_text_def undecoded_lines_def
  lines_before_failure_def file_key_def path_parts_def names_directory_def wants_directory_def
  writable_def write_file_def open_error_def

lemmas replay_defs =
  import_events_def fs_defs readlines_def import_event_def event_payload_def bind_err_def
  requests_post_def print_def payload_of_def well_formed_event_def append_request_def
  parsed_lines_def accepted_def

lemmas reader_defs =
  get_stream_events_def requests_get_def read_page_def bind_err_def print_def
  page_is_def link_is_def next_url_def is_200_def is_2xx_def

lemmas export_defs =
  well_formed_entry_def event_url_of_def url_of_def fetch_requests_def fetched_def decodable_def
  body_of_def record_line_def codec_ok_def bind_err_def writable_def

lemmas codec_defs =
  process_import_file_def extract_archive_def os_walk_def endswith_def extension_of_def path_name_def
  export_events_def compress_def write_archive_def

lemmas discovery_defs =
  get_available_streams_def run_projection_def requests_get_def requests_post_def print_def
  command_headers_def status_headers_def stream_name_of_def bind_err_def

text \<open>The file of \<open>demo_file\<close> is found under its name.\<close>

lemma open_read_demo_file: "open_read (demo_file content) (UserPath ''f.json'') = Inr content"
  by (simp add: fs_defs bind_err_def demo_file_def demo_state_def)

section \<open>Facts about the replay writer\<close>

lemma import_lines_counts:
  "import_lines env url hs ls sc fc st = (Inr (sc', fc'), st') \<Longrightarrow>
   sc' + fc' = sc + fc + length (filter (\<lambda>l. loads env l \<noteq> None) ls)"
proof (induction ls arbitrary: sc fc st)
  case Nil
  then show ?case by simp
next
  case (Cons l ls)
  show ?case
  proof (cases "loads env l")
    case None
    with Cons.prems have "import_lines env url hs ls sc fc (print (ErrorDecodingJSON l) st) = (Inr (sc', fc'), st')"
      by simp
    from Cons.IH[OF this] None show ?thesis by simp
  next
    case (Some ev)
    obtain r st1 where ie: "import_event env url ev hs st = (r, st1)" by (cases "import_event env url ev hs st")
    show ?thesis
    proof (cases r)
      case (Inl e)
      with Cons.prems Some ie show ?thesis by simp
    next
      case (Inr ok)
      show ?thesis
      proof (cases ok)
        case True
        with Cons.prems Some ie Inr have "import_lines env url hs ls (sc + 1) fc st1 = (Inr (sc', fc'), st')" by simp
        from Cons.IH[OF this] Some show ?thesis by simp
      next
        case False
        with Cons.prems Some ie Inr have "import_lines env url hs ls sc (fc + 1) st1 = (Inr (sc', fc'), st')" by simp
        from Cons.IH[OF this] Some show ?thesis by simp
      qed
    qed
  qed
qed

lemma import_event_wf:
  assumes "well_formed_event ev"
  shows "import_event env url ev hs st =
     (case http env (server st) (append_request env url hs ev) of (r, w) \<Rightarrow>
        (Inr (accepted r),
         (if accepted r then (\<lambda>s. s) else print (FailedUpload (status_code r) (resp_text r)))
           (st\<lparr>server := w, sent := sent st @ [append_request env url hs ev]\<rparr>)))"
  using assms
  by (auto simp: import_event_def well_formed_event_def payload_of_def append_request_def
      requests_post_def accepted_def split: sum.splits prod.splits)

lemma parsed_lines_Cons:
  "parsed_lines env (l # ls) = (case loads env l of None \<Rightarrow> parsed_lines env ls | Some e \<Rightarrow> e # parsed_lines env ls)"
  by (simp add: parsed_lines_def List.map_filter_simps split: option.splits)

lemma parsed_lines_Nil: "parsed_lines env [] = []"
  by (simp add: parsed_lines_def List.map_filter_simps)

lemma import_lines_run:
  assumes "\<forall>l\<in>set ls. \<forall>e. loads env l = Some e \<longrightarrow> well_formed_event e"
  shows "\<exists>st'. import_lines env url hs ls sc fc st =
           (Inr (sc + length (filter accepted (replies env (server st) (map (append_request env url hs) (parsed_lines env ls)))),
                 fc + length (filter (\<lambda>r. \<not> accepted r) (replies env (server st) (map (append_request env url hs) (parsed_lines env ls))))), st')
         \<and> sent st' = sent st @ map (append_request env url hs) (parsed_lines env ls)
         \<and> server st' = server_after env (server st) (map (append_request env url hs) (parsed_lines env ls))
         \<and> files st' = files st \<and> tmpdir st' = tmpdir st
         \<and> set (stdout st) \<subseteq> set (stdout st')
         \<and> (\<forall>l\<in>set ls. loads env l = None \<longrightarrow> ErrorDecodingJSON l \<in> set (stdout st'))"
  using assms
proof (induction ls arbitrary: sc fc st)
  case Nil
  then show ?case by (simp add: parsed_lines_Nil)
next
  case (Cons l ls)
  from Cons.prems have wf: "\<forall>l\<in>set ls. \<forall>e. loads env l = Some e \<longrightarrow> well_formed_event e" by simp
  show ?case
  proof (cases "loads env l")
    case None
    from Cons.IH[OF wf, of sc fc "print (ErrorDecodingJSON l) st"]
    show ?thesis using None by (auto simp: parsed_lines_Cons print_def)
  next
    case (Some ev)
    with Cons.prems have wfe: "well_formed_event ev" by simp
    obtain r w where h: "http env (server st) (append_request env url hs ev) = (r, w)"
      by (cases "http env (server st) (append_request env url hs ev)")
    show ?thesis
    proof (cases "accepted r")
      case True
      from Cons.IH[OF wf, of "sc + 1" fc "st\<lparr>server := w, sent := sent st @ [append_request env url hs ev]\<rparr>"]
      show ?thesis using Some True h by (auto simp: parsed_lines_Cons import_event_wf[OF wfe])
    next
      case False
      from Cons.IH[OF wf, of sc "fc + 1" "print (FailedUpload (status_code r) (resp_text r)) (st\<lparr>server := w, sent := sent st @ [append_request env url hs ev]\<rparr>)"]
      show ?thesis using Some False h by (auto simp: parsed_lines_Cons import_event_wf[OF wfe] print_def)
    qed
  qed
qed

lemma last_stdout_print: "last (stdout (print m st)) = m"
  by (simp add: print_def)

lemma import_events_run:
  assumes op: "open_read st filename = Inr content"
    and wf: "\<forall>l\<in>set (readlines content). \<forall>e. loads env l = Some e \<longrightarrow> well_formed_event e"
  shows "\<exists>st'. import_events env filename url hs st = (Inr (), st')
     \<and> sent st' = sent st @ map (append_request env url hs) (parsed_lines env (readlines content))
     \<and> server st' = server_after env (server st) (map (append_request env url hs) (parsed_lines env (readlines content)))
     \<and> files st' = files st \<and> tmpdir st' = tmpdir st
     \<and> last (stdout st') =
         (if length (filter (\<lambda>r. \<not> accepted r) (replies env (server st) (map (append_request env url hs) (parsed_lines env (readlines content))))) > 0
          then UploadedWithFailures
                 (length (filter accepted (replies env (server st) (map (append_request env url hs) (parsed_lines env (readlines content))))))
                 (length (filter (\<lambda>r. \<not> accepted r) (replies env (server st) (map (append_request env url hs) (parsed_lines env (readlines content))))))
          else Uploaded (length (filter accepted (replies env (server st) (map (append_request env url hs) (parsed_lines env (readlines content)))))))
     \<and> (\<forall>l\<in>set (readlines content). loads env l = None \<longrightarrow> ErrorDecodingJSON l \<in> set (stdout st'))"
proof -
  from import_lines_run[OF wf, of url hs 0 0 st]
  obtain st1 where r: "import_lines env url hs (readlines content) 0 0 st =
           (Inr (0 + length (filter accepted (replies env (server st) (map (append_request env url hs) (parsed_lines env (readlines content))))),
                 0 + length (filter (\<lambda>r. \<not> accepted r) (replies env (server st) (map (append_request env url hs) (parsed_lines env (readlines content)))))), st1)"
    and s: "sent st1 = sent st @ map (append_request env url hs) (parsed_lines env (readlines content))"
    and w: "server st1 = server_after env (server st) (map (append_request env url hs) (parsed_lines env (readlines content)))"
    and f: "files st1 = files st" "tmpdir st1 = tmpdir st"
    and m: "\<forall>l\<in>set (readlines content). loads env l = None \<longrightarrow> ErrorDecodingJSON l \<in> set (stdout st1)"
    by blast
  show ?thesis
    using op r s w f m
    by (simp add: import_events_def print_def)
qed

section \<open>The claims about the replay writer\<close>

text \<open>
  Claim C10 (count accounting), as stated, fails: not every file is processed to a
  report. The file below has two lines that decode; the first decodes to the empty
  object, \<^verbatim>\<open>event['content']\<close> raises \<^verbatim>\<open>KeyError\<close>, which \<^verbatim>\<open>import_events\<close> does not
  catch: the run ends there with no request sent, nothing counted for the second line and
  no totals printed.
\<close>

theorem count_accounting_counterexample:
  "map (loads demo_env) (readlines (''{}'' @ [LF] @ ''{a}'' @ [LF])) =
     [Some (JObj []), Some (demo_event ''a'' ''T1'')]
   \<and> import_events demo_env (UserPath ''f.json'') ''s'' []
        (demo_file (''{}'' @ [LF] @ ''{a}'' @ [LF]))
      = (Inl KeyError, demo_file (''{}'' @ [LF] @ ''{a}'' @ [LF]))
   \<and> stdout (demo_file (''{}'' @ [LF] @ ''{a}'' @ [LF])) = []
   \<and> sent (demo_file (''{}'' @ [LF] @ ''{a}'' @ [LF])) = []"
  by (simp add: replay_defs demo_defs)

text \<open>
  Claim C10, amended. For every input file whose decodable lines are all event records
  (they carry \<^verbatim>\<open>content.eventId\<close>, \<^verbatim>\<open>content.eventType\<close> and \<^verbatim>\<open>content.data\<close>) the replay
  writer reaches its report, and whenever it reaches its report, the reported success
  count and failure count add up to the number of lines of the file that \<^verbatim>\<open>json.loads\<close>
  decodes; a line that does not decode changes neither counter (the loop goes on with the
  same counters and has only printed the decoding error).
\<close>

theorem count_accounting:
  "(open_read st filename = Inr content
      \<and> (\<forall>l\<in>set (readlines content). \<forall>e. loads env l = Some e \<longrightarrow> well_formed_event e) \<longrightarrow>
      (\<exists>st' s f.
            import_events env filename stream_url hs st = (Inr (), st')
          \<and> last (stdout st') = (if f > 0 then UploadedWithFailures s f else Uploaded s)
          \<and> s + f = length (filter (\<lambda>l. loads env l \<noteq> None) (readlines content))))
   \<and> (import_events env filename stream_url hs st = (Inr (), st') \<longrightarrow>
      (\<exists>content s f.
            open_read st filename = Inr content
          \<and> last (stdout st') = (if f > 0 then UploadedWithFailures s f else Uploaded s)
          \<and> s + f = length (filter (\<lambda>l. loads env l \<noteq> None) (readlines content))))
   \<and> (\<forall>l ls sc fc s0. loads env l = None \<longrightarrow>
            fst (import_lines env stream_url hs (l # ls) sc fc s0) =
            fst (import_lines env stream_url hs ls sc fc (print (ErrorDecodingJSON l) s0)))"
proof (intro conjI impI)
  assume run: "import_events env filename stream_url hs st = (Inr (), st')"
  have "\<exists>content. open_read st filename = Inr content"
  proof (cases "open_read st filename")
    case (Inl e)
    with run show ?thesis
      by (auto simp: import_events_def split: prod.splits sum.splits)
  next
    case (Inr content)
    then show ?thesis by blast
  qed
  then obtain content where op: "open_read st filename = Inr content" by blast
  obtain r st1 where il: "import_lines env stream_url hs (readlines content) 0 0 st = (r, st1)"
    by (cases "import_lines env stream_url hs (readlines content) 0 0 st")
  with run op obtain s f where r: "r = Inr (s, f)"
    and st': "st' = print (if f > 0 then UploadedWithFailures s f else Uploaded s) st1"
    by (auto simp: import_events_def split: sum.splits prod.splits)
  from import_lines_counts[OF il[unfolded r]]
  have "s + f = length (filter (\<lambda>l. loads env l \<noteq> None) (readlines content))" by simp
  with op st' show "\<exists>content s f.
            open_read st filename = Inr content
          \<and> last (stdout st') = (if f > 0 then UploadedWithFailures s f else Uploaded s)
          \<and> s + f = length (filter (\<lambda>l. loads env l \<noteq> None) (readlines content))"
    using last_stdout_print by blast
next
  assume a: "open_read st filename = Inr content
      \<and> (\<forall>l\<in>set (readlines content). \<forall>e. loads env l = Some e \<longrightarrow> well_formed_event e)"
  then have op: "open_read st filename = Inr content"
    and wf: "\<forall>l\<in>set (readlines content). \<forall>e. loads env l = Some e \<longrightarrow> well_formed_event e"
    by simp_all
  from import_events_run[OF op wf, of stream_url hs]
  obtain st1 where run: "import_events env filename stream_url hs st = (Inr (), st1)" by blast
  obtain r st0 where il: "import_lines env stream_url hs (readlines content) 0 0 st = (r, st0)"
    by (cases "import_lines env stream_url hs (readlines content) 0 0 st")
  with run op obtain s f where r: "r = Inr (s, f)"
    and st1: "st1 = print (if f > 0 then UploadedWithFailures s f else Uploaded s) st0"
    by (auto simp: import_events_def split: sum.splits prod.splits)
  from import_lines_counts[OF il[unfolded r]]
  have "s + f = length (filter (\<lambda>l. loads env l \<noteq> None) (readlines content))" by simp
  with run st1 show "\<exists>st' s f.
            import_events env filename stream_url hs st = (Inr (), st')
          \<and> last (stdout st') = (if f > 0 then UploadedWithFailures s f else Uploaded s)
          \<and> s + f = length (filter (\<lambda>l. loads env l \<noteq> None) (readlines content))"
    using last_stdout_print by blast
next
  show "\<forall>l ls sc fc s0. loads env l = None \<longrightarrow>
            fst (import_lines env stream_url hs (l # ls) sc fc s0) =
            fst (import_lines env stream_url hs ls sc fc (print (ErrorDecodingJSON l) s0))"
    by simp
qed

text \<open>The run of the small server on a file of two records and one broken line.\<close>

theorem count_accounting_witness:
  "\<exists>st'. import_events demo_env (UserPath ''f.json'') ''s'' []
            (demo_file (''{a}'' @ [LF] @ ''{b}'' @ [LF] @ ''garbage'' @ [LF])) = (Inr (), st')
     \<and> last (stdout st') = UploadedWithFailures 1 1
     \<and> length (filter (\<lambda>l. loads demo_env l \<noteq> None)
          (readlines (''{a}'' @ [LF] @ ''{b}'' @ [LF] @ ''garbage'' @ [LF]))) = 2"
proof -
  let ?c = "''{a}'' @ [LF] @ ''{b}'' @ [LF] @ ''garbage'' @ [LF]"
  let ?st = "demo_file ?c"
  have op: "open_read ?st (UserPath ''f.json'') = Inr ?c"
    by (rule open_read_demo_file)
  have wf: "\<forall>l\<in>set (readlines ?c). \<forall>e. loads demo_env l = Some e \<longrightarrow> well_formed_event e"
    by (simp add: replay_defs demo_defs)
  have n: "length (filter (\<lambda>l. loads demo_env l \<noteq> None) (readlines ?c)) = 2"
    by (simp add: replay_defs demo_defs)
  have l: "last (stdout (snd (import_events demo_env (UserPath ''f.json'') ''s'' [] ?st))) = UploadedWithFailures 1 1"
    by (simp add: replay_defs demo_defs)
  from count_accounting[of ?st "UserPath ''f.json''" ?c demo_env "''s''" "[]"] op wf
  obtain st' s f where run: "import_events demo_env (UserPath ''f.json'') ''s'' [] ?st = (Inr (), st')"
    and "s + f = length (filter (\<lambda>l. loads demo_env l \<noteq> None) (readlines ?c))"
    by blast
  with l n show ?thesis by auto
qed

text \<open>
  Claim C5 (replay writer result). For a file whose decodable lines are event records,
  \<^verbatim>\<open>import_events\<close> returns normally; it has sent one append request for each record, in
  file order and nothing else (no retry); its last printed line carries the pair of
  counts, where the success count is the number of responses with status 200 or 201 and
  the failure count the number of all other responses. \<^verbatim>\<open>import_event\<close> answers \<open>True\<close>
  exactly for the statuses 200 and 201.
\<close>

theorem replay_result:
  assumes "open_read st filename = Inr content"
    and "\<forall>l\<in>set (readlines content). \<forall>e. loads env l = Some e \<longrightarrow> well_formed_event e"
  shows "(\<exists>st'. import_events env filename stream_url hs st = (Inr (), st')
       \<and> sent st' = sent st @ map (append_request env stream_url hs) (parsed_lines env (readlines content))
       \<and> last (stdout st') =
           (let rs = replies env (server st)
                       (map (append_request env stream_url hs) (parsed_lines env (readlines content)));
                success_count = length (filter accepted rs);
                failure_count = length (filter (\<lambda>r. \<not> accepted r) rs)
            in if failure_count > 0 then UploadedWithFailures success_count failure_count
               else Uploaded success_count))
     \<and> (\<forall>event s0. well_formed_event event \<longrightarrow>
           fst (import_event env stream_url event hs s0) =
           Inr (status_code (fst (http env (server s0) (append_request env stream_url hs event))) \<in> {200, 201}))"
proof (intro conjI allI impI)
  from import_events_run[OF assms, of stream_url hs]
  show "\<exists>st'. import_events env filename stream_url hs st = (Inr (), st')
       \<and> sent st' = sent st @ map (append_request env stream_url hs) (parsed_lines env (readlines content))
       \<and> last (stdout st') =
           (let rs = replies env (server st)
                       (map (append_request env stream_url hs) (parsed_lines env (readlines content)));
                success_count = length (filter accepted rs);
                failure_count = length (filter (\<lambda>r. \<not> accepted r) rs)
            in if failure_count > 0 then UploadedWithFailures success_count failure_count
               else Uploaded success_count)"
    unfolding Let_def by blast
next
  fix event :: json and s0 :: "'a state"
  assume "well_formed_event event"
  from import_event_wf[OF this, of env stream_url hs s0]
  show "fst (import_event env stream_url event hs s0) =
           Inr (status_code (fst (http env (server s0) (append_request env stream_url hs event))) \<in> {200, 201})"
    by (simp add: accepted_def split: prod.splits)
qed

text \<open>Three records on the small server, the second one refused.\<close>

theorem replay_result_witness:
  "(\<exists>st'. import_events demo_env (UserPath ''f.json'') ''s'' []
            (demo_file (''{a}'' @ [LF] @ ''{b}'' @ [LF] @ ''{a}'' @ [LF])) = (Inr (), st')
       \<and> sent st' = [POST ''s'' [] ''[a]'', POST ''s'' [] ''[b]'', POST ''s'' [] ''[a]'']
       \<and> last (stdout st') = UploadedWithFailures 2 1)
   \<and> fst (import_event demo_env ''s'' (demo_event ''b'' ''T2'') [] demo_state) = Inr False"
proof -
  let ?c = "''{a}'' @ [LF] @ ''{b}'' @ [LF] @ ''{a}'' @ [LF]"
  have op: "open_read (demo_file ?c) (UserPath ''f.json'') = Inr ?c"
    by (rule open_read_demo_file)
  have wf: "\<forall>l\<in>set (readlines ?c). \<forall>e. loads demo_env l = Some e \<longrightarrow> well_formed_event e"
    by (simp add: replay_defs demo_defs)
  have wfb: "well_formed_event (demo_event ''b'' ''T2'')"
    by (simp add: replay_defs demo_defs)
  have reqs: "map (append_request demo_env ''s'' []) (parsed_lines demo_env (readlines ?c)) =
      [POST ''s'' [] ''[a]'', POST ''s'' [] ''[b]'', POST ''s'' [] ''[a]'']"
    by (simp add: replay_defs demo_defs List.map_filter_simps)
  have rs: "map status_code (replies demo_env 0 [POST ''s'' [] ''[a]'', POST ''s'' [] ''[b]'', POST ''s'' [] ''[a]'']) = [201, 400, 201]"
    by (simp add: demo_defs)
  have rs': "replies demo_env 0 [POST ''s'' [] ''[a]'', POST ''s'' [] ''[b]'', POST ''s'' [] ''[a]''] = [demo_response 201 None, demo_response 400 None, demo_response 201 None]"
    by (simp add: demo_defs)
  have b: "append_request demo_env ''s'' [] (demo_event ''b'' ''T2'') = POST ''s'' [] ''[b]''"
    by (simp add: replay_defs demo_defs)
  have srv: "server (demo_file ?c) = 0" "sent (demo_file ?c) = []"
    by (simp_all add: demo_file_def demo_state_def)
  have cnt: "length (filter accepted [demo_response 201 None, demo_response 400 None, demo_response 201 None]) = 2"
    "length (filter (\<lambda>r. \<not> accepted r) [demo_response 201 None, demo_response 400 None, demo_response 201 None]) = 1"
    by (simp_all add: accepted_def demo_response_def)
  have st400: "status_code (fst (http demo_env (server demo_state) (POST ''s'' [] ''[b]''))) = 400"
    by (simp add: demo_defs)
  note R = replay_result[OF op wf, of "''s''" "[]"]
  from R have A: "\<exists>st'. import_events demo_env (UserPath ''f.json'') ''s'' [] (demo_file ?c) = (Inr (), st')
       \<and> sent st' = [POST ''s'' [] ''[a]'', POST ''s'' [] ''[b]'', POST ''s'' [] ''[a]'']
       \<and> last (stdout st') = UploadedWithFailures 2 1"
    unfolding reqs Let_def srv rs' cnt by simp
  from R wfb have "fst (import_event demo_env ''s'' (demo_event ''b'' ''T2'') [] demo_state) =
      Inr (status_code (fst (http demo_env (server demo_state) (append_request demo_env ''s'' [] (demo_event ''b'' ''T2'')))) \<in> {200, 201})"
    by blast
  then have B: "fst (import_event demo_env ''s'' (demo_event ''b'' ''T2'') [] demo_state) = Inr False"
    unfolding b st400 by simp
  from A B show ?thesis by blast
qed

text \<open>
  Claim C6 (replay failure isolation), as stated, fails: a line can decode as JSON and
  still be no event record. The file below has one line that decodes (to the empty object)
  and one that does not; \<^verbatim>\<open>event['content']\<close> raises \<^verbatim>\<open>KeyError\<close>, which
  \<^verbatim>\<open>import_events\<close> does not catch: nothing is reported and the second line is never read.
\<close>

theorem replay_isolation_counterexample:
  "map (loads demo_env) (readlines (''{}'' @ [LF] @ ''garbage'' @ [LF])) = [Some (JObj []), None]
   \<and> import_events demo_env (UserPath ''f.json'') ''s'' []
        (demo_file (''{}'' @ [LF] @ ''garbage'' @ [LF]))
      = (Inl KeyError, demo_file (''{}'' @ [LF] @ ''garbage'' @ [LF]))
   \<and> stdout (demo_file (''{}'' @ [LF] @ ''garbage'' @ [LF])) = []"
  by (simp add: replay_defs demo_defs)

text \<open>
  Claim C6, amended. For a file whose decodable lines are all event records (they carry
  \<^verbatim>\<open>content.eventId\<close>, \<^verbatim>\<open>content.eventType\<close> and \<^verbatim>\<open>content.data\<close>) and that has one line
  that does not decode, the writer returns normally and reports \<open>s\<close> successes and \<open>f\<close>
  failures with \<open>s + f\<close> the number of the other lines, \<open>f\<close> being the number of refused
  submissions; the broken line is reported; and a request has been sent for every record,
  those behind the broken line included.
\<close>

theorem replay_isolation:
  assumes "open_read st filename = Inr content"
    and "\<forall>l\<in>set (readlines content). \<forall>e. loads env l = Some e \<longrightarrow> well_formed_event e"
    and "length (filter (\<lambda>l. loads env l = None) (readlines content)) = 1"
  shows "\<exists>st' s f. import_events env filename stream_url hs st = (Inr (), st')
       \<and> last (stdout st') = (if f > 0 then UploadedWithFailures s f else Uploaded s)
       \<and> s + f = length (readlines content) - 1
       \<and> f = length (filter (\<lambda>r. \<not> accepted r)
                (replies env (server st)
                   (map (append_request env stream_url hs) (parsed_lines env (readlines content)))))
       \<and> (\<forall>l\<in>set (readlines content). loads env l = None \<longrightarrow> ErrorDecodingJSON l \<in> set (stdout st'))
       \<and> sent st' = sent st @ map (append_request env stream_url hs) (parsed_lines env (readlines content))"
proof -
  let ?ls = "readlines content"
  let ?rs = "replies env (server st) (map (append_request env stream_url hs) (parsed_lines env ?ls))"
  have len_rs: "\<And>w rq. length (replies env w rq) = length rq"
  proof -
    fix w rq show "length (replies env w rq) = length rq"
      by (induction rq arbitrary: w) (auto split: prod.splits)
  qed
  have len_p: "\<And>ls. length (parsed_lines env ls) = length (filter (\<lambda>l. loads env l \<noteq> None) ls)"
  proof -
    fix ls show "length (parsed_lines env ls) = length (filter (\<lambda>l. loads env l \<noteq> None) ls)"
      by (induction ls) (auto simp: parsed_lines_Cons parsed_lines_Nil split: option.splits)
  qed
  have "length (filter (\<lambda>l. loads env l \<noteq> None) ?ls) + length (filter (\<lambda>l. loads env l = None) ?ls) = length ?ls"
    using sum_length_filter_compl[of "\<lambda>l. loads env l \<noteq> None" ?ls] by simp
  with assms(3) have M: "length (parsed_lines env ?ls) = length ?ls - 1"
    by (simp add: len_p)
  have "length (filter accepted ?rs) + length (filter (\<lambda>r. \<not> accepted r) ?rs) = length ?rs"
    by (rule sum_length_filter_compl)
  then have tot: "length (filter accepted ?rs) + length (filter (\<lambda>r. \<not> accepted r) ?rs) = length ?ls - 1"
    by (simp add: len_rs M)
  from import_events_run[OF assms(1,2), of stream_url hs] tot
  show ?thesis by blast
qed

text \<open>Three records and a broken line in second place, on the small server.\<close>

theorem replay_isolation_witness:
  "\<exists>st'. import_events demo_env (UserPath ''f.json'') ''s'' []
            (demo_file (''{a}'' @ [LF] @ ''garbage'' @ [LF] @ ''{b}'' @ [LF] @ ''{a}'' @ [LF])) = (Inr (), st')
       \<and> last (stdout st') = UploadedWithFailures 2 1
       \<and> ErrorDecodingJSON (''garbage'' @ [LF]) \<in> set (stdout st')
       \<and> sent st' = [POST ''s'' [] ''[a]'', POST ''s'' [] ''[b]'', POST ''s'' [] ''[a]'']"
proof -
  let ?c = "''{a}'' @ [LF] @ ''garbage'' @ [LF] @ ''{b}'' @ [LF] @ ''{a}'' @ [LF]"
  have op: "open_read (demo_file ?c) (UserPath ''f.json'') = Inr ?c"
    by (rule open_read_demo_file)
  have wf: "\<forall>l\<in>set (readlines ?c). \<forall>e. loads demo_env l = Some e \<longrightarrow> well_formed_event e"
    by (simp add: replay_defs demo_defs)
  have one: "length (filter (\<lambda>l. loads demo_env l = None) (readlines ?c)) = 1"
    by (simp add: replay_defs demo_defs)
  have reqs: "map (append_request demo_env ''s'' []) (parsed_lines demo_env (readlines ?c)) =
      [POST ''s'' [] ''[a]'', POST ''s'' [] ''[b]'', POST ''s'' [] ''[a]'']"
    by (simp add: replay_defs demo_defs List.map_filter_simps)
  have rs': "replies demo_env 0 [POST ''s'' [] ''[a]'', POST ''s'' [] ''[b]'', POST ''s'' [] ''[a]''] = [demo_response 201 None, demo_response 400 None, demo_response 201 None]"
    by (simp add: demo_defs)
  have srv: "server (demo_file ?c) = 0" "sent (demo_file ?c) = []"
    by (simp_all add: demo_file_def demo_state_def)
  have cnt: "length (filter (\<lambda>r. \<not> accepted r) [demo_response 201 None, demo_response 400 None, demo_response 201 None]) = 1"
    by (simp_all add: accepted_def demo_response_def)
  have len: "length (readlines ?c) - 1 = 3"
    by (simp add: readlines_def LF_def CR_def)
  have bad: "loads demo_env (''garbage'' @ [LF]) = None" "''garbage'' @ [LF] \<in> set (readlines ?c)"
    by (simp_all add: replay_defs demo_defs)
  from replay_isolation[OF op wf one, of "''s''" "[]"]
  obtain st' s f where h: "import_events demo_env (UserPath ''f.json'') ''s'' [] (demo_file ?c) = (Inr (), st')"
    "last (stdout st') = (if f > 0 then UploadedWithFailures s f else Uploaded s)"
    "s + f = 3" "f = 1"
    "\<forall>l\<in>set (readlines ?c). loads demo_env l = None \<longrightarrow> ErrorDecodingJSON l \<in> set (stdout st')"
    "sent st' = [POST ''s'' [] ''[a]'', POST ''s'' [] ''[b]'', POST ''s'' [] ''[a]'']"
    unfolding reqs srv rs' cnt len by auto
  from h(3,4) have "s = 2" by simp
  with h bad show ?thesis by auto
qed

section \<open>Facts about the paginated reader\<close>

lemma link_is_truthy: "link_is l ru \<Longrightarrow> truthy l"
  by (cases l) (auto simp: link_is_def split: option.splits)

lemma find_next_links:
  assumes "list_all2 link_is ls links"
  shows "case next_url links of
           None \<Rightarrow> find_next ls = Inr None
         | Some u \<Rightarrow> (\<exists>l. find_next ls = Inr (Some l) \<and> getitem l ''uri'' = Inr (JStr u) \<and> truthy l)"
  using assms
proof (induction rule: list_all2_induct)
  case Nil
  then show ?case by (simp add: next_url_def)
next
  case (Cons l ls ru links)
  show ?case
  proof (cases "fst ru = ''next''")
    case True
    with Cons.hyps(1) show ?thesis
      using link_is_truthy[OF Cons.hyps(1)]
      by (auto simp: next_url_def link_is_def)
  next
    case False
    with Cons.hyps(1) have "find_next (l # ls) = find_next ls"
      by (auto simp: link_is_def)
    moreover from False have "next_url (ru # links) = next_url links"
      by (simp add: next_url_def)
    ultimately show ?thesis using Cons.IH by (simp only:)
  qed
qed

lemma read_page_is:
  assumes "page_is data es links"
  shows "read_page data = Inr (es, map_option JStr (next_url links))"
proof -
  from assms obtain ls where e: "getitem data ''entries'' = Inr (JArr es)"
    and l: "getitem data ''links'' = Inr (JArr ls)" and a: "list_all2 link_is ls links"
    by (auto simp: page_is_def split: sum.splits json.splits)
  show ?thesis
  proof (cases "next_url links")
    case None
    with find_next_links[OF a] have "find_next ls = Inr None" by simp
    with e l None show ?thesis by (simp add: read_page_def bind_err_def)
  next
    case (Some u)
    with find_next_links[OF a] obtain lk where "find_next ls = Inr (Some lk)"
      "getitem lk ''uri'' = Inr (JStr u)" "truthy lk" by auto
    with e l Some show ?thesis by (simp add: read_page_def bind_err_def)
  qed
qed

lemma loop_page_chain:
  assumes "page_chain env hs is_200 (server st) url pages"
  shows "\<exists>st'. get_stream_events_loop env hs (JStr url) events st =
            Some (Inr (events @ concat (map fst pages)), st')"
  using assms
proof (induction pages arbitrary: url events st)
  case Nil
  then show ?case by simp
next
  case (Cons p ps)
  obtain r w where h: "http env (server st) (GET url hs) = (r, w)"
    by (cases "http env (server st) (GET url hs)")
  let ?st1 = "st\<lparr>server := w, sent := sent st @ [GET url hs]\<rparr>"
  from Cons.prems h have u: "url \<noteq> []" and ok: "status_code r = 200"
    by (auto simp: is_200_def)
  from Cons.prems h obtain data where d: "resp_json r = Some data" and pg: "page_is data (fst p) (snd p)"
    by (auto split: option.splits)
  note rp = read_page_is[OF pg]
  show ?case
  proof (cases "next_url (snd p)")
    case None
    with Cons.prems h have "ps = []" by simp
    with None u ok d rp h show ?thesis
      by (subst get_stream_events_loop.simps) (simp add: requests_get_def)
  next
    case (Some nxt)
    with Cons.prems h have ch: "page_chain env hs is_200 (server ?st1) nxt ps" by simp
    from Cons.IH[OF ch, of "events @ fst p"]
    obtain st' where "get_stream_events_loop env hs (JStr nxt) (events @ fst p) ?st1 =
        Some (Inr ((events @ fst p) @ concat (map fst ps)), st')" by blast
    with Some u ok d rp h show ?thesis
      by (subst get_stream_events_loop.simps) (simp add: requests_get_def)
  qed
qed

lemma loop_broken_chain:
  assumes "broken_chain env hs is_200 (server st) url pages"
  shows "\<exists>st'. get_stream_events_loop env hs (JStr url) events st =
            Some (Inr (events @ concat (map fst pages)), st')"
  using assms
proof (induction pages arbitrary: url events st)
  case Nil
  obtain r w where h: "http env (server st) (GET url hs) = (r, w)"
    by (cases "http env (server st) (GET url hs)")
  with Nil show ?case
    by (subst get_stream_events_loop.simps) (simp add: requests_get_def is_200_def)
next
  case (Cons p ps)
  obtain r w where h: "http env (server st) (GET url hs) = (r, w)"
    by (cases "http env (server st) (GET url hs)")
  let ?st1 = "st\<lparr>server := w, sent := sent st @ [GET url hs]\<rparr>"
  from Cons.prems h have u: "url \<noteq> []" and ok: "status_code r = 200"
    by (auto simp: is_200_def)
  from Cons.prems h obtain data where d: "resp_json r = Some data" and pg: "page_is data (fst p) (snd p)"
    by (auto split: option.splits)
  note rp = read_page_is[OF pg]
  from Cons.prems h obtain nxt where Some: "next_url (snd p) = Some nxt"
    by (auto split: option.splits)
  with Cons.prems h have ch: "broken_chain env hs is_200 (server ?st1) nxt ps" by simp
  from Cons.IH[OF ch, of "events @ fst p"]
  obtain st' where "get_stream_events_loop env hs (JStr nxt) (events @ fst p) ?st1 =
        Some (Inr ((events @ fst p) @ concat (map fst ps)), st')" by blast
  with Some u ok d rp h show ?case
    by (subst get_stream_events_loop.simps) (simp add: requests_get_def)
qed

section \<open>The claim about the paginated reader\<close>

text \<open>
  Claim C2 (pagination), as stated, fails where it speaks of 2xx: the reader goes on only
  after status 200. The page \<^verbatim>\<open>t\<close> of the small server is a chain of one page without a
  \<^verbatim>\<open>next\<close> link, served with the 2xx status 203; the reader returns no entry at all and
  prints the failure.
\<close>

theorem pagination_counterexample:
  "page_chain demo_env [] is_2xx (server demo_state) ''t'' [([demo_entry ''s/0''], [(''self'', ''t'')])]
   \<and> concat (map fst [([demo_entry ''s/0''], [(''self'', ''t'')])]) = [demo_entry ''s/0'']
   \<and> get_stream_events demo_env ''t'' [] demo_state =
       Some (Inr [], demo_state\<lparr>server := 1, sent := [GET ''t'' []], stdout := [FailedFetchPage 203]\<rparr>)"
  by (simp add: reader_defs demo_defs get_stream_events_loop.simps)

text \<open>
  Claim C2, amended. For a chain of K linked pages of which only the last has no \<^verbatim>\<open>next\<close>
  link and whose fetches all return status 200, \<^verbatim>\<open>get_stream_events\<close> halts and returns the
  concatenation of the K entry lists. If pages 1 to J-1 are served so and the fetch of
  page J returns any other status, it halts and returns the concatenation of the entry
  lists of pages 1 to J-1, with no exception.
\<close>

theorem pagination:
  "(page_chain env hs is_200 (server st) stream_url pages \<longrightarrow>
      (\<exists>st'. get_stream_events env stream_url hs st = Some (Inr (concat (map fst pages)), st')))
   \<and> (broken_chain env hs is_200 (server st) stream_url pages \<longrightarrow>
      (\<exists>st'. get_stream_events env stream_url hs st = Some (Inr (concat (map fst pages)), st')))"
  using loop_page_chain[of env hs st stream_url pages "[]"]
    loop_broken_chain[of env hs st stream_url pages "[]"]
  by (simp add: get_stream_events_def)

text \<open>The two pages of the stream \<^verbatim>\<open>s\<close>, and the stream \<^verbatim>\<open>r\<close> whose second page is gone.\<close>

theorem pagination_witness:
  "page_chain demo_env [] is_200 (server demo_state) ''s''
     [([demo_entry ''s/1''], [(''self'', ''s''), (''next'', ''s?p2'')]),
      ([demo_entry ''s/0''], [(''self'', ''s?p2'')])]
   \<and> (\<exists>st'. get_stream_events demo_env ''s'' [] demo_state =
               Some (Inr [demo_entry ''s/1'', demo_entry ''s/0''], st'))
   \<and> broken_chain demo_env [] is_200 (server demo_state) ''r''
     [([demo_entry ''s/1''], [(''next'', ''r?p2'')])]
   \<and> (\<exists>st'. get_stream_events demo_env ''r'' [] demo_state = Some (Inr [demo_entry ''s/1''], st'))"
proof -
  have c: "page_chain demo_env [] is_200 (server demo_state) ''s''
     [([demo_entry ''s/1''], [(''self'', ''s''), (''next'', ''s?p2'')]),
      ([demo_entry ''s/0''], [(''self'', ''s?p2'')])]"
    by (simp add: reader_defs demo_defs)
  have b: "broken_chain demo_env [] is_200 (server demo_state) ''r''
     [([demo_entry ''s/1''], [(''next'', ''r?p2'')])]"
    by (simp add: reader_defs demo_defs)
  from pagination[of demo_env "[]" demo_state "''s''"
      "[([demo_entry ''s/1''], [(''self'', ''s''), (''next'', ''s?p2'')]), ([demo_entry ''s/0''], [(''self'', ''s?p2'')])]"] c
  have 1: "\<exists>st'. get_stream_events demo_env ''s'' [] demo_state =
               Some (Inr [demo_entry ''s/1'', demo_entry ''s/0''], st')" by simp
  from pagination[of demo_env "[]" demo_state "''r''" "[([demo_entry ''s/1''], [(''next'', ''r?p2'')])]"] b
  have 2: "\<exists>st'. get_stream_events demo_env ''r'' [] demo_state = Some (Inr [demo_entry ''s/1''], st')"
    by simp
  from c b 1 2 show ?thesis by blast
qed

section \<open>Facts about the event materializer\<close>

text \<open>The functions of \<^verbatim>\<open>export-stream.py\<close> are those of \<^verbatim>\<open>access-stream.py\<close> at the
  global headers, so what is proved below of the latter holds of the former.\<close>

lemma legacy_get_stream_events_eq:
  "legacy_get_stream_events env stream_url st = get_stream_events env stream_url legacy_headers st"
  by (simp add: legacy_get_stream_events_def get_stream_events_def)

lemma legacy_export_events_eq:
  "legacy_export_events env events filename st =
   export_events_to_file env (UserPath filename) events legacy_headers st"
  by (simp add: legacy_export_events_def export_events_to_file_def writable_def)

lemma fetch_requests_Cons: "fetch_requests hs (e # es) = GET (url_of e) hs # fetch_requests hs es"
  by (simp add: fetch_requests_def)

lemma fetch_requests_Nil: "fetch_requests hs [] = []"
  by (simp add: fetch_requests_def)

lemma well_formed_entry_url: "well_formed_entry e \<Longrightarrow> event_url_of e = Inr (JStr (url_of e))"
  by (auto simp: well_formed_entry_def url_of_def split: sum.splits json.splits)

lemma export_entries_run:
  assumes "\<forall>e\<in>set es. well_formed_entry e"
    and "\<forall>r\<in>set (replies env (server st) (fetch_requests hs es)). fetched r \<longrightarrow> decodable r"
  shows "export_entries env hs es written st =
    ((None, written @ concat (map (\<lambda>r. record_line env (body_of r))
                         (filter fetched (replies env (server st) (fetch_requests hs es))))),
     st\<lparr>server := server_after env (server st) (fetch_requests hs es),
        sent := sent st @ fetch_requests hs es\<rparr>)"
  using assms
proof (induction es arbitrary: written st)
  case Nil
  then show ?case by (simp add: fetch_requests_Nil)
next
  case (Cons e es)
  obtain r w where h: "http env (server st) (GET (url_of e) hs) = (r, w)"
    by (cases "http env (server st) (GET (url_of e) hs)")
  let ?st1 = "st\<lparr>server := w, sent := sent st @ [GET (url_of e) hs]\<rparr>"
  from Cons.prems(1) have u: "event_url_of e = Inr (JStr (url_of e))"
    by (simp add: well_formed_entry_url)
  from Cons.prems(1) have wf: "\<forall>e\<in>set es. well_formed_entry e" by simp
  from Cons.prems(2) h
  have dec: "\<forall>r\<in>set (replies env (server ?st1) (fetch_requests hs es)). fetched r \<longrightarrow> decodable r"
    and decr: "fetched r \<longrightarrow> decodable r"
    by (simp_all add: fetch_requests_Cons)
  note IH = Cons.IH[OF wf dec]
  show ?case
  proof (cases "fetched r")
    case True
    with decr obtain j where j: "resp_json r = Some j" by (auto simp: decodable_def split: option.splits)
    from True have s: "status_code r = 200" by (simp add: fetched_def)
    show ?thesis
      using u h s j True IH[of "written @ dumps env j @ [LF]"]
      by (simp add: fetch_requests_Cons requests_get_def record_line_def body_of_def)
  next
    case False
    then have s: "status_code r \<noteq> 200" by (simp add: fetched_def)
    show ?thesis
      using u h s False IH[of written]
      by (simp add: fetch_requests_Cons requests_get_def)
  qed
qed

lemma map_of_update_entry: "map_of (update_entry n t es) n = Some t"
  by (induction es) auto

lemma update_entry_twice: "update_entry n t (update_entry n u es) = update_entry n t es"
  by (induction es) auto

lemma export_events_to_file_run:
  assumes "writable p"
    and "\<forall>e\<in>set entries. well_formed_entry e"
    and "\<forall>r\<in>set (replies env (server st) (fetch_requests hs (rev entries))). fetched r \<longrightarrow> decodable r"
  shows "export_events_to_file env p entries hs st =
    (Inr (), write_file p (exported_text env hs entries (server st))
       (st\<lparr>server := server_after env (server st) (fetch_requests hs (rev entries)),
          sent := sent st @ fetch_requests hs (rev entries)\<rparr>))"
proof -
  from assms(2) have wf: "\<forall>e\<in>set (rev entries). well_formed_entry e" by simp
  have srv: "server (write_file p [] st) = server st" "sent (write_file p [] st) = sent st"
    by (auto simp: write_file_def split: path.splits list.splits)
  from assms(3) have dec: "\<forall>r\<in>set (replies env (server (write_file p [] st)) (fetch_requests hs (rev entries))). fetched r \<longrightarrow> decodable r"
    by (simp add: srv)
  show ?thesis
    using assms(1)
    by (simp add: export_events_to_file_def export_entries_run[OF wf dec] srv exported_text_def)
      (auto simp: write_file_def update_entry_twice split: path.splits list.splits)
qed

lemma universal_newlines_id: "CR \<notin> set s \<Longrightarrow> universal_newlines s = s"
  by (induction s rule: universal_newlines.induct) auto

lemma split_lines_line:
  "LF \<notin> set a \<Longrightarrow> split_lines cur (a @ LF # rest) = (cur @ a @ [LF]) # split_lines [] rest"
  by (induction a arbitrary: cur) auto

lemma split_lines_record_lines:
  assumes "\<forall>b\<in>set bs. LF \<notin> set (dumps env b)"
  shows "split_lines [] (concat (map (record_line env) bs)) = map (record_line env) bs"
  using assms
proof (induction bs)
  case Nil
  then show ?case by simp
next
  case (Cons b bs)
  then have "LF \<notin> set (dumps env b)" by simp
  from split_lines_line[OF this, of "[]" "concat (map (record_line env) bs)"]
  have "split_lines [] (record_line env b @ concat (map (record_line env) bs)) =
      record_line env b # split_lines [] (concat (map (record_line env) bs))"
    by (simp add: record_line_def)
  with Cons show ?case by simp
qed

lemma readlines_record_lines:
  assumes "\<forall>b\<in>set bs. codec_ok env b"
  shows "readlines (concat (map (record_line env) bs)) = map (record_line env) bs"
proof -
  from assms have "CR \<notin> set (concat (map (record_line env) bs))"
    by (auto simp: codec_ok_def record_line_def LF_def CR_def)
  then have "universal_newlines (concat (map (record_line env) bs)) = concat (map (record_line env) bs)"
    by (rule universal_newlines_id)
  moreover from assms have "\<forall>b\<in>set bs. LF \<notin> set (dumps env b)" by (simp add: codec_ok_def)
  ultimately show ?thesis by (simp add: readlines_def split_lines_record_lines)
qed

lemma parsed_record_lines:
  assumes "\<forall>b\<in>set bs. codec_ok env b"
  shows "parsed_lines env (map (record_line env) bs) = bs"
  using assms
  by (induction bs) (auto simp: parsed_lines_Cons parsed_lines_Nil codec_ok_def record_line_def)

lemma exported_text_all:
  assumes "\<forall>r\<in>set (replies env w (fetch_requests hs (rev entries))). fetched r"
  shows "exported_text env hs entries w =
     concat (map (record_line env) (map body_of (replies env w (fetch_requests hs (rev entries)))))"
proof -
  from assms have "filter fetched (replies env w (fetch_requests hs (rev entries))) =
      replies env w (fetch_requests hs (rev entries))" by simp
  then show ?thesis by (simp add: exported_text_def comp_def)
qed

lemma open_read_write_file:
  "writable p \<Longrightarrow> open_read (write_file p c st) p = Inr c"
  by (auto simp: writable_def write_file_def open_read_def os_open_def path_open_def
      read_text_def bind_err_def map_of_update_entry
      split: path.splits list.splits)

section \<open>The claims about the event materializer\<close>

text \<open>
  Claim C3 (ordering preservation). Let the entries be given newest first, each with the
  address of its event, and let every fetch succeed (status 200, a body that decodes, and
  a body that the JSON codec writes on one line and reads back). Then
  \<^verbatim>\<open>export_events_to_file\<close> returns normally, the lines of the written file are the
  dumped event bodies in the order of the reversed entry list, and the records read back
  from the file are these bodies in that order: the k-th record is the event of the k-th
  entry from the end.
\<close>

theorem ordering_preservation:
  assumes "writable p"
    and "\<forall>e\<in>set entries. well_formed_entry e"
    and "\<forall>r\<in>set (replies env (server st) (fetch_requests hs (rev entries))). fetched r \<and> decodable r"
    and "\<forall>r\<in>set (replies env (server st) (fetch_requests hs (rev entries))). codec_ok env (body_of r)"
  shows "\<exists>st' content. export_events_to_file env p entries hs st = (Inr (), st')
     \<and> open_read st' p = Inr content
     \<and> readlines content =
         map (\<lambda>r. record_line env (body_of r)) (replies env (server st) (fetch_requests hs (rev entries)))
     \<and> parsed_lines env (readlines content) =
         map body_of (replies env (server st) (fetch_requests hs (rev entries)))"
proof -
  let ?rs = "replies env (server st) (fetch_requests hs (rev entries))"
  let ?bs = "map body_of ?rs"
  from assms(3) have dec: "\<forall>r\<in>set ?rs. fetched r \<longrightarrow> decodable r" and all: "\<forall>r\<in>set ?rs. fetched r"
    by simp_all
  from assms(4) have ok: "\<forall>b\<in>set ?bs. codec_ok env b" by simp
  have etext: "exported_text env hs entries (server st) = concat (map (record_line env) ?bs)"
    by (rule exported_text_all[OF all])
  have rl: "readlines (concat (map (record_line env) ?bs)) = map (record_line env) ?bs"
    by (rule readlines_record_lines[OF ok])
  have pl: "parsed_lines env (map (record_line env) ?bs) = ?bs"
    by (rule parsed_record_lines[OF ok])
  let ?c = "concat (map (record_line env) ?bs)"
  let ?st' = "write_file p ?c
       (st\<lparr>server := server_after env (server st) (fetch_requests hs (rev entries)),
          sent := sent st @ fetch_requests hs (rev entries)\<rparr>)"
  have run: "export_events_to_file env p entries hs st = (Inr (), ?st')"
    using export_events_to_file_run[OF assms(1,2) dec] by (simp only: etext)
  have rd: "open_read ?st' p = Inr ?c"
    by (rule open_read_write_file[OF assms(1)])
  have l1: "readlines ?c = map (\<lambda>r. record_line env (body_of r)) ?rs"
    using rl by (simp add: comp_def)
  have l2: "parsed_lines env (readlines ?c) = ?bs"
    using rl pl by simp
  from run rd l1 l2 show ?thesis by blast
qed

text \<open>The stream \<^verbatim>\<open>s\<close> of the small server: the entries arrive as \<^verbatim>\<open>b\<close>, \<^verbatim>\<open>a\<close>; the file
  holds \<^verbatim>\<open>a\<close>, then \<^verbatim>\<open>b\<close>.\<close>

theorem ordering_preservation_witness:
  "\<exists>st'. export_events_to_file demo_env (UserPath ''out.json'')
            [demo_entry ''s/1'', demo_entry ''s/0''] [] demo_state = (Inr (), st')
     \<and> open_read st' (UserPath ''out.json'') = Inr (''{a}'' @ [LF] @ ''{b}'' @ [LF])
     \<and> parsed_lines demo_env (readlines (''{a}'' @ [LF] @ ''{b}'' @ [LF])) =
         [demo_event ''a'' ''T1'', demo_event ''b'' ''T2'']"
proof -
  let ?es = "[demo_entry ''s/1'', demo_entry ''s/0'']"
  have w: "writable (UserPath ''out.json'')" by (simp add: fs_defs)
  have wf: "\<forall>e\<in>set ?es. well_formed_entry e"
    by (simp add: export_defs demo_defs)
  have rs: "replies demo_env (server demo_state) (fetch_requests [] (rev ?es)) =
      [demo_response 200 (Some (demo_event ''a'' ''T1'')), demo_response 200 (Some (demo_event ''b'' ''T2''))]"
    by (simp add: export_defs demo_entry_def demo_state_def demo_env_def demo_http_def)
  have f: "\<forall>r\<in>set (replies demo_env (server demo_state) (fetch_requests [] (rev ?es))). fetched r \<and> decodable r"
    unfolding rs by (simp add: export_defs demo_response_def)
  have c: "\<forall>r\<in>set (replies demo_env (server demo_state) (fetch_requests [] (rev ?es))). codec_ok demo_env (body_of r)"
    unfolding rs by (simp add: export_defs replay_defs demo_defs)
  have ls: "map (\<lambda>r. record_line demo_env (body_of r))
      [demo_response 200 (Some (demo_event ''a'' ''T1'')), demo_response 200 (Some (demo_event ''b'' ''T2''))]
      = [''{a}'' @ [LF], ''{b}'' @ [LF]]"
    by (simp add: export_defs demo_defs)
  have bs: "map body_of
      [demo_response 200 (Some (demo_event ''a'' ''T1'')), demo_response 200 (Some (demo_event ''b'' ''T2''))]
      = [demo_event ''a'' ''T1'', demo_event ''b'' ''T2'']"
    by (simp add: body_of_def demo_response_def)
  have rd: "readlines (''{a}'' @ [LF] @ ''{b}'' @ [LF]) = [''{a}'' @ [LF], ''{b}'' @ [LF]]"
    by (simp add: readlines_def LF_def CR_def)
  from ordering_preservation[OF w wf f c]
  obtain st' content where h: "export_events_to_file demo_env (UserPath ''out.json'') ?es [] demo_state = (Inr (), st')"
    "open_read st' (UserPath ''out.json'') = Inr content"
    "readlines content = [''{a}'' @ [LF], ''{b}'' @ [LF]]"
    "parsed_lines demo_env (readlines content) = [demo_event ''a'' ''T1'', demo_event ''b'' ''T2'']"
    unfolding rs ls bs by blast
  have "open_read (snd (export_events_to_file demo_env (UserPath ''out.json'') ?es [] demo_state)) (UserPath ''out.json'')
      = Inr (''{a}'' @ [LF] @ ''{b}'' @ [LF])"
    by (simp add: export_events_to_file_def fs_defs requests_get_def export_defs demo_defs)
  with h have "content = ''{a}'' @ [LF] @ ''{b}'' @ [LF]" by simp
  with h show ?thesis by auto
qed

text \<open>
  Claim C7 (export silent drop). Every entry is fetched on its own, at the address of its
  first link (one \<^verbatim>\<open>GET\<close> for each entry, in the order of the reversed list). The file
  holds one line for each event whose fetch returned status 200 and none for the others,
  and \<^verbatim>\<open>export_events_to_file\<close> returns normally. (\<^verbatim>\<open>export_events\<close> of
  \<^verbatim>\<open>export-stream.py\<close> is the same function, see \<open>legacy_export_events_eq\<close>.)
\<close>

theorem export_silent_drop:
  assumes "writable p"
    and "\<forall>e\<in>set entries. well_formed_entry e"
    and "\<forall>r\<in>set (replies env (server st) (fetch_requests hs (rev entries))). fetched r \<longrightarrow> decodable r"
  shows "\<exists>st'. export_events_to_file env p entries hs st = (Inr (), st')
     \<and> sent st' = sent st @ fetch_requests hs (rev entries)
     \<and> open_read st' p =
         Inr (concat (map (\<lambda>r. record_line env (body_of r))
                (filter (\<lambda>r. status_code r = 200)
                   (replies env (server st) (fetch_requests hs (rev entries))))))"
proof -
  have s: "\<And>c s0. sent (write_file p c s0) = sent s0"
    by (auto simp: write_file_def split: path.splits list.splits)
  have f: "fetched = (\<lambda>r. status_code r = 200)" by (auto simp: fetched_def)
  from export_events_to_file_run[OF assms] open_read_write_file[OF assms(1)]
  show ?thesis
    by (simp add: s exported_text_def f)
qed

text \<open>Three entries on the small server; the event of the middle one is gone (404).\<close>

theorem export_silent_drop_witness:
  "\<exists>st'. export_events_to_file demo_env (UserPath ''out.json'')
            [demo_entry ''s/1'', demo_entry ''gone'', demo_entry ''s/0''] [] demo_state = (Inr (), st')
     \<and> sent st' = [GET ''s/0'' [], GET ''gone'' [], GET ''s/1'' []]
     \<and> open_read st' (UserPath ''out.json'') = Inr (''{a}'' @ [LF] @ ''{b}'' @ [LF])"
proof -
  let ?es = "[demo_entry ''s/1'', demo_entry ''gone'', demo_entry ''s/0'']"
  have w: "writable (UserPath ''out.json'')" by (simp add: fs_defs)
  have wf: "\<forall>e\<in>set ?es. well_formed_entry e"
    by (simp add: export_defs demo_defs)
  have rq: "fetch_requests [] (rev ?es) = [GET ''s/0'' [], GET ''gone'' [], GET ''s/1'' []]"
    by (simp add: export_defs demo_defs)
  have rs: "replies demo_env (server demo_state) [GET ''s/0'' [], GET ''gone'' [], GET ''s/1'' []] =
      [demo_response 200 (Some (demo_event ''a'' ''T1'')), demo_response 404 None,
       demo_response 200 (Some (demo_event ''b'' ''T2''))]"
    by (simp add: demo_state_def demo_env_def demo_http_def)
  have f: "\<forall>r\<in>set (replies demo_env (server demo_state) (fetch_requests [] (rev ?es))). fetched r \<longrightarrow> decodable r"
    unfolding rq rs by (simp add: export_defs demo_response_def)
  have ls: "concat (map (\<lambda>r. record_line demo_env (body_of r))
      (filter (\<lambda>r. status_code r = 200)
      [demo_response 200 (Some (demo_event ''a'' ''T1'')), demo_response 404 None,
       demo_response 200 (Some (demo_event ''b'' ''T2''))]))
      = ''{a}'' @ [LF] @ ''{b}'' @ [LF]"
    by (simp add: export_defs demo_defs)
  have s0: "sent demo_state = []" by (simp add: demo_state_def)
  from export_silent_drop[OF w wf f]
  show ?thesis unfolding rq rs ls s0 by simp
qed

section \<open>Facts about a transfer through a file or an archive\<close>

lemma record_lines_well_formed:
  assumes "\<forall>b\<in>set bs. codec_ok env b \<and> well_formed_event b"
  shows "\<forall>l\<in>set (readlines (concat (map (record_line env) bs))).
           \<forall>e. loads env l = Some e \<longrightarrow> well_formed_event e"
proof -
  from assms have ok: "\<forall>b\<in>set bs. codec_ok env b" by simp
  show ?thesis
    unfolding readlines_record_lines[OF ok]
    using assms by (auto simp: codec_ok_def record_line_def)
qed

lemma import_text_run:
  assumes "open_read s p = Inr (concat (map (record_line env) bs))"
    and "\<forall>b\<in>set bs. codec_ok env b \<and> well_formed_event b"
  shows "\<exists>s'. import_events env p url hs s = (Inr (), s')
     \<and> sent s' = sent s @ map (append_request env url hs) bs
     \<and> tmpdir s' = tmpdir s"
proof -
  from assms(2) have ok: "\<forall>b\<in>set bs. codec_ok env b" by simp
  have pl: "parsed_lines env (readlines (concat (map (record_line env) bs))) = bs"
    by (simp add: readlines_record_lines[OF ok] parsed_record_lines[OF ok])
  from import_events_run[OF assms(1) record_lines_well_formed[OF assms(2)], of url hs]
  show ?thesis unfolding pl by blast
qed

text \<open>A name with an extension is the name of a file, not of a directory; and a file
  that a \<^verbatim>\<open>Path\<close> object wrote is found again under the string the object was made from
  when that string does not ask for a directory.\<close>

lemma extension_names_file: "extension_of name \<noteq> [] \<Longrightarrow> \<not> names_directory name"
  by (auto simp: extension_of_def path_name_def names_directory_def path_parts_def Let_def
      split: list.splits if_splits)

lemma names_file_nonempty: "\<not> names_directory name \<Longrightarrow> name \<noteq> []"
  by (auto simp: names_directory_def path_parts_def)

lemma os_open_found:
  assumes "files st (file_key name) = Some f"
    and "\<not> names_directory name" and "\<not> wants_directory name"
  shows "os_open st name = Inr f"
  using assms names_file_nonempty[OF assms(2)] by (simp add: os_open_def)

lemma os_open_extracting:
  "os_open (print m (st\<lparr>tmpdir := t\<rparr>)) name = os_open st name"
  by (simp add: os_open_def print_def)

lemma open_read_after_path_write:
  assumes "\<not> names_directory name" and "\<not> wants_directory name"
  shows "open_read (write_file (PathObject name) c st) (UserPath name) = Inr c"
proof -
  have "files (write_file (PathObject name) c st) (file_key name) = Some (Text c)"
    by (simp add: write_file_def)
  from os_open_found[OF this assms] show ?thesis
    by (simp add: open_read_def bind_err_def read_text_def)
qed

lemma export_plain_run:
  assumes "extension_of file_name = ''.json''"
    and "\<not> wants_directory file_name"
    and "\<forall>e\<in>set entries. well_formed_entry e"
    and "\<forall>r\<in>set (replies env (server st) (fetch_requests hs (rev entries))). fetched r \<longrightarrow> decodable r"
  shows "\<exists>st1. export_events env entries file_name hs st = (Inr (), st1)
     \<and> open_read st1 (UserPath file_name) = Inr (exported_text env hs entries (server st))"
proof -
  from assms(1) have nd: "\<not> names_directory file_name"
    by (intro extension_names_file) simp
  then have w: "writable (PathObject file_name)" by (simp add: writable_def)
  from export_events_to_file_run[OF w assms(3,4)] open_read_after_path_write[OF nd assms(2)] assms(1)
  show ?thesis by (simp add: export_events_def Let_def)
qed

lemma import_plain_run:
  assumes "extension_of file_name \<in> {''.json'', []}"
    and "open_read st1 (UserPath file_name) = Inr (concat (map (record_line env) bs))"
    and "\<forall>b\<in>set bs. codec_ok env b \<and> well_formed_event b"
  shows "\<exists>st2. process_import_file env file_name url hs st1 = (Inr (), st2)
     \<and> sent st2 = sent st1 @ map (append_request env url hs) bs"
  using import_text_run[OF assms(2,3), of url hs] assms(1)
  by (auto simp: process_import_file_def Let_def)

lemma export_archive_run:
  assumes "extension_of file_name \<in> {''.zip'', ''.tar.xz''}"
    and "\<forall>e\<in>set entries. well_formed_entry e"
    and "\<forall>r\<in>set (replies env (server st) (fetch_requests hs (rev entries))). fetched r \<longrightarrow> decodable r"
  shows "\<exists>st1. export_events env entries file_name hs st = (Inr (), st1)
     \<and> files st1 (file_key file_name) =
         Some (archive_of (extension_of file_name) (exported_text env hs entries (server st)))
     \<and> tmpdir st1 = []"
proof -
  from assms(1) have nd: "\<not> names_directory file_name"
    by (intro extension_names_file) auto
  have w: "writable (TempPath [''events.json''])" by (simp add: writable_def)
  have srv: "server (st\<lparr>tmpdir := []\<rparr>) = server st" by simp
  from assms(3) have dec: "\<forall>r\<in>set (replies env (server (st\<lparr>tmpdir := []\<rparr>)) (fetch_requests hs (rev entries))). fetched r \<longrightarrow> decodable r"
    by simp
  note run = export_events_to_file_run[OF w assms(2) dec, unfolded srv]
  from assms(1) nd show ?thesis
    by (auto simp: export_events_def Let_def run write_file_def compress_def write_archive_def
        print_def archive_of_def)
qed

lemma import_archive_run:
  assumes "extension_of file_name \<in> {''.zip'', ''.tar.xz''}"
    and "os_open st1 file_name =
         Inr (archive_of (extension_of file_name) (concat (map (record_line env) bs)))"
    and "\<forall>b\<in>set bs. codec_ok env b \<and> well_formed_event b"
  shows "\<exists>st2. process_import_file env file_name url hs st1 = (Inr (), st2)
     \<and> sent st2 = sent st1 @ map (append_request env url hs) bs"
proof -
  let ?c = "concat (map (record_line env) bs)"
  let ?s = "print (Extracted file_name)
      ((print (Extracting file_name) (st1\<lparr>tmpdir := []\<rparr>))\<lparr>tmpdir := [(''events.json'', TFile ?c)]\<rparr>)"
  have oo: "os_open (print (Extracting file_name) (st1\<lparr>tmpdir := []\<rparr>)) file_name = os_open st1 file_name"
    by (simp add: os_open_def print_def)
  have ex: "extract_archive (extension_of file_name) file_name (print (Extracting file_name) (st1\<lparr>tmpdir := []\<rparr>))
      = Inr ((print (Extracting file_name) (st1\<lparr>tmpdir := []\<rparr>))\<lparr>tmpdir := [(''events.json'', TFile ?c)]\<rparr>)"
    using assms(1,2) by (auto simp: extract_archive_def archive_of_def oo)
  have op: "open_read ?s (TempPath [''events.json'']) = Inr ?c"
    by (simp add: open_read_def print_def)
  from import_text_run[OF op assms(3), of url hs]
  obtain s' where r: "import_events env (TempPath [''events.json'']) url hs ?s = (Inr (), s')"
    and snt: "sent s' = sent ?s @ map (append_request env url hs) bs" by blast
  have td: "tmpdir ?s = [(''events.json'', TFile ?c)]" by (simp add: print_def)
  have wk: "import_walk env (os_walk [(''events.json'', TFile ?c)]) url hs ?s = (Inr (), s')"
    using r td by (simp add: os_walk_def endswith_def)
  have s0: "sent ?s = sent st1" by (simp add: print_def)
  have td1: "tmpdir ((print (Extracting file_name) (st1\<lparr>tmpdir := []\<rparr>))\<lparr>tmpdir := [(''events.json'', TFile ?c)]\<rparr>) = [(''events.json'', TFile ?c)]"
    by simp
  from assms(1) show ?thesis
    by (auto simp: process_import_file_def Let_def ex td1 wk snt s0)
qed

text \<open>
  A name that ends in a slash shows the difference between the two forms of a path: the
  export writes \<^verbatim>\<open>out.zip\<close> (the \<^verbatim>\<open>Path\<close> object has dropped the slash), and the import,
  which opens the string as given, is refused by the system before anything is sent.
\<close>

lemma export_to_trailing_slash:
  "export_events demo_env [demo_entry ''s/1'', demo_entry ''s/0''] ''out.zip/'' [] demo_state =
     (Inr (),
      demo_state\<lparr>server := 2, sent := [GET ''s/0'' [], GET ''s/1'' []],
        files := [''out.zip'' \<mapsto> Zip [(''events.json'', TFile (''{a}'' @ [LF] @ ''{b}'' @ [LF]))]],
        stdout := [Compressing ''out.zip/'', Compressed ''out.zip/'']\<rparr>)"
  by (simp add: codec_defs export_events_to_file_def requests_get_def print_def fs_defs
      export_defs demo_defs Let_def)

lemma import_from_trailing_slash:
  "process_import_file demo_env ''out.zip/'' ''s2'' []
     (demo_state\<lparr>server := 2, sent := [GET ''s/0'' [], GET ''s/1'' []],
        files := [''out.zip'' \<mapsto> Zip [(''events.json'', TFile (''{a}'' @ [LF] @ ''{b}'' @ [LF]))]],
        stdout := [Compressing ''out.zip/'', Compressed ''out.zip/'']\<rparr>) =
     (Inl NotADirectoryError,
      demo_state\<lparr>server := 2, sent := [GET ''s/0'' [], GET ''s/1'' []],
        files := [''out.zip'' \<mapsto> Zip [(''events.json'', TFile (''{a}'' @ [LF] @ ''{b}'' @ [LF]))]],
        stdout := [Compressing ''out.zip/'', Compressed ''out.zip/'', Extracting ''out.zip/'']\<rparr>)"
  by (simp add: codec_defs print_def fs_defs demo_defs Let_def)

text \<open>An archive whose bytes decode is read as text like any file: here as one line
  that is no JSON, so that nothing is uploaded.\<close>

lemma archive_read_as_text:
  "import_events demo_env (UserPath ''plain'') ''s'' []
     (demo_state\<lparr>files := [''plain'' \<mapsto> Zip []], archive_text := (\<lambda>f. Inl ''PK'')\<rparr>) =
   (Inr (),
    demo_state\<lparr>files := [''plain'' \<mapsto> Zip []], archive_text := (\<lambda>f. Inl ''PK''),
      stdout := [ErrorDecodingJSON ''PK'', Uploaded 0]\<rparr>)"
  by (simp add: replay_defs demo_defs)

text \<open>A name whose last character is neither a slash nor a dot (such as every name
  that ends in \<^verbatim>\<open>.json\<close>, \<^verbatim>\<open>.zip\<close> or \<^verbatim>\<open>.tar.xz\<close>) does not ask for a directory.\<close>

lemma split_path_nonempty: "split_path cur s \<noteq> []"
  by (induction s arbitrary: cur) auto

lemma last_split_path_snoc:
  "c \<noteq> CHR ''/'' \<Longrightarrow> last (split_path cur (s @ [c])) = last (split_path cur s) @ [c]"
  by (induction s arbitrary: cur) (auto simp: split_path_nonempty)

lemma plain_name_no_directory:
  assumes "name \<noteq> []" and "last name \<noteq> CHR ''/''" and "last name \<noteq> CHR ''.''"
  shows "\<not> wants_directory name"
proof -
  from assms(1) have n: "name = butlast name @ [last name]" by simp
  from last_split_path_snoc[OF assms(2), of "[]" "butlast name"] n
  have "last (split_path [] name) = last (split_path [] (butlast name)) @ [last name]" by simp
  with assms(3) show ?thesis by (auto simp: wants_directory_def)
qed

text \<open>The append request of an event record carries its three fields and nothing else.\<close>

lemma append_request_triple:
  assumes "getitem event ''content'' = Inr c"
    and "getitem c ''eventId'' = Inr event_id"
    and "getitem c ''eventType'' = Inr event_type"
    and "getitem c ''data'' = Inr data"
  shows "well_formed_event event"
    and "append_request env stream_url hs event =
      POST stream_url hs
        (dumps env (JArr [JObj [(''eventId'', event_id), (''eventType'', event_type), (''data'', data)]]))"
  using assms
  by (simp_all add: well_formed_event_def append_request_def payload_of_def event_payload_def bind_err_def)

section \<open>The round trip\<close>

text \<open>
  Claim C1 (round trip). Let N entries be given (newest first), let every fetch of an
  event succeed with a well-formed event record as its body, and let the JSON codec write
  each body on one line and read it back. Let the file name have the extension
  \<^verbatim>\<open>.json\<close>, \<^verbatim>\<open>.zip\<close> or \<^verbatim>\<open>.tar.xz\<close> and be the name of a file as it stands (it does not
  end in a slash or in a \<^verbatim>\<open>.\<close> component, see \<open>plain_name_no_directory\<close>), so that the
  string the import opens leads to the file the export wrote at \<^verbatim>\<open>Path(file_name)\<close>.
  Exporting to that file and importing it then both return normally, and the import
  sends exactly N requests: the append requests of the N records
  (\<open>append_request_triple\<close>: each carries the record's \<^verbatim>\<open>eventId\<close>, \<^verbatim>\<open>eventType\<close> and
  \<^verbatim>\<open>data\<close>), oldest first, the order in which the export fetched them.
\<close>

theorem round_trip:
  assumes "extension_of file_name \<in> {''.json'', ''.zip'', ''.tar.xz''}"
    and "\<not> wants_directory file_name"
    and "\<forall>e\<in>set entries. well_formed_entry e"
    and "\<forall>r\<in>set (replies env (server st) (fetch_requests hs (rev entries))).
           fetched r \<and> decodable r \<and> codec_ok env (body_of r) \<and> well_formed_event (body_of r)"
  shows "\<exists>st1 st2. export_events env entries file_name hs st = (Inr (), st1)
     \<and> process_import_file env file_name stream_url hs' st1 = (Inr (), st2)
     \<and> sent st2 = sent st1 @
         map (append_request env stream_url hs')
           (map body_of (replies env (server st) (fetch_requests hs (rev entries))))
     \<and> length (map body_of (replies env (server st) (fetch_requests hs (rev entries)))) = length entries"
proof -
  let ?rs = "replies env (server st) (fetch_requests hs (rev entries))"
  let ?bs = "map body_of ?rs"
  from assms(4) have dec: "\<forall>r\<in>set ?rs. fetched r \<longrightarrow> decodable r" and all: "\<forall>r\<in>set ?rs. fetched r"
    and ok: "\<forall>b\<in>set ?bs. codec_ok env b \<and> well_formed_event b"
    by simp_all
  have etext: "exported_text env hs entries (server st) = concat (map (record_line env) ?bs)"
    by (rule exported_text_all[OF all])
  have len_rs: "\<And>w rq. length (replies env w rq) = length rq"
  proof -
    fix w rq show "length (replies env w rq) = length rq"
      by (induction rq arbitrary: w) (auto split: prod.splits)
  qed
  have len: "length ?bs = length entries"
    by (simp add: len_rs fetch_requests_def)
  show ?thesis
  proof (cases "extension_of file_name = ''.json''")
    case True
    then have e: "extension_of file_name \<in> {''.json'', []}" by simp
    from export_plain_run[OF True assms(2,3) dec]
    obtain st1 where 1: "export_events env entries file_name hs st = (Inr (), st1)"
      and 2: "open_read st1 (UserPath file_name) = Inr (concat (map (record_line env) ?bs))"
      unfolding etext by blast
    from import_plain_run[OF e 2 ok, of stream_url hs'] 1 len show ?thesis by blast
  next
    case False
    with assms(1) have e: "extension_of file_name \<in> {''.zip'', ''.tar.xz''}" by simp
    from e have nd: "\<not> names_directory file_name"
      by (intro extension_names_file) auto
    from export_archive_run[OF e assms(3) dec]
    obtain st1 where 1: "export_events env entries file_name hs st = (Inr (), st1)"
      and 2: "files st1 (file_key file_name) = Some (archive_of (extension_of file_name) (concat (map (record_line env) ?bs)))"
      unfolding etext by blast
    note 3 = os_open_found[OF 2 nd assms(2)]
    from import_archive_run[OF e 3 ok, of stream_url hs'] 1 len show ?thesis by blast
  qed
qed

text \<open>The stream \<^verbatim>\<open>s\<close> of the small server through a zip archive.\<close>

theorem round_trip_witness:
  "\<exists>st1 st2. export_events demo_env [demo_entry ''s/1'', demo_entry ''s/0''] ''out.zip'' [] demo_state = (Inr (), st1)
     \<and> process_import_file demo_env ''out.zip'' ''s2'' [] st1 = (Inr (), st2)
     \<and> sent st2 = sent st1 @ [POST ''s2'' [] ''[a]'', POST ''s2'' [] ''[b]'']"
proof -
  let ?es = "[demo_entry ''s/1'', demo_entry ''s/0'']"
  have x: "extension_of ''out.zip'' \<in> {''.json'', ''.zip'', ''.tar.xz''}"
    by (simp add: extension_of_def path_name_def)
  have nw: "\<not> wants_directory ''out.zip''"
    by (simp add: wants_directory_def)
  have wf: "\<forall>e\<in>set ?es. well_formed_entry e"
    by (simp add: export_defs demo_defs)
  have rs: "replies demo_env (server demo_state) (fetch_requests [] (rev ?es)) =
      [demo_response 200 (Some (demo_event ''a'' ''T1'')), demo_response 200 (Some (demo_event ''b'' ''T2''))]"
    by (simp add: export_defs demo_entry_def demo_state_def demo_env_def demo_http_def)
  have f: "\<forall>r\<in>set (replies demo_env (server demo_state) (fetch_requests [] (rev ?es))).
      fetched r \<and> decodable r \<and> codec_ok demo_env (body_of r) \<and> well_formed_event (body_of r)"
    unfolding rs by (simp add: export_defs replay_defs demo_defs)
  have rq: "map (append_request demo_env ''s2'' [])
      (map body_of [demo_response 200 (Some (demo_event ''a'' ''T1'')), demo_response 200 (Some (demo_event ''b'' ''T2''))])
      = [POST ''s2'' [] ''[a]'', POST ''s2'' [] ''[b]'']"
    by (simp add: export_defs replay_defs demo_defs)
  from round_trip[OF x nw wf f, of "''s2''" "[]"]
  show ?thesis unfolding rs rq by blast
qed

lemma export_events_to_file_leaves_file:
  assumes "writable p" and "export_events_to_file env p events hs st = (r, st1)"
  shows "\<exists>c. open_read st1 p = Inr c"
proof -
  obtain e written s where x: "export_entries env hs (rev events) [] (write_file p [] st) = ((e, written), s)"
    by (metis surj_pair)
  with assms have "st1 = write_file p written s"
    by (cases e) (auto simp: export_events_to_file_def)
  with open_read_write_file[OF assms(1)] show ?thesis by blast
qed

section \<open>The claims about the archive codec\<close>

text \<open>
  Claim C8 (extension dispatch). The extension is what the code computes,
  \<^verbatim>\<open>''.join(Path(name).suffixes)\<close>. On the export side and on the import side alike: with
  the extension \<^verbatim>\<open>.json\<close> or none the record stream is written or read at the given path
  itself (the export at \<^verbatim>\<open>Path(file_name)\<close>, the import at the string); with \<^verbatim>\<open>.zip\<close> or \<^verbatim>\<open>.tar.xz\<close> it goes through the file \<^verbatim>\<open>events.json\<close> of a
  temporary directory (the export stores that file as the one member of the archive and
  writes no archive when writing the stream fails; the import extracts the archive and
  works on what was extracted), and the temporary directory is gone afterwards; with any
  other extension the operation prints the unsupported-type message and does nothing
  else: no file changes and no request is sent.
\<close>

theorem extension_dispatch:
  "(extension_of file_name \<in> {''.json'', []} \<longrightarrow>
      export_events env events file_name hs st =
        export_events_to_file env (PathObject file_name) events hs st
    \<and> process_import_file env file_name stream_url hs st =
        import_events env (UserPath file_name) stream_url hs st)
 \<and> (extension_of file_name \<in> {''.zip'', ''.tar.xz''} \<longrightarrow>
      (\<forall>st1. export_events_to_file env (TempPath [''events.json'']) events hs (st\<lparr>tmpdir := []\<rparr>) = (Inr (), st1) \<longrightarrow>
         (\<exists>c st'. export_events env events file_name hs st = (Inr (), st')
            \<and> open_read st1 (TempPath [''events.json'']) = Inr c
            \<and> files st' (file_key file_name) = Some (archive_of (extension_of file_name) c)
            \<and> tmpdir st' = []))
    \<and> (\<forall>e st1. export_events_to_file env (TempPath [''events.json'']) events hs (st\<lparr>tmpdir := []\<rparr>) = (Inl e, st1) \<longrightarrow>
         export_events env events file_name hs st = (Inl e, st1\<lparr>tmpdir := []\<rparr>))
    \<and> (\<forall>ms. os_open st file_name =
               Inr (if extension_of file_name = ''.zip'' then Zip ms else TarXz ms) \<longrightarrow>
         process_import_file env file_name stream_url hs st =
           (case import_walk env (os_walk ms) stream_url hs
                   (print (Extracted file_name) ((print (Extracting file_name) st)\<lparr>tmpdir := ms\<rparr>)) of
              (r, st2) \<Rightarrow> (r, st2\<lparr>tmpdir := []\<rparr>))))
 \<and> (extension_of file_name \<notin> {''.json'', [], ''.zip'', ''.tar.xz''} \<longrightarrow>
      export_events env events file_name hs st =
        (Inr (), print (UnsupportedFileType (extension_of file_name)) st)
    \<and> process_import_file env file_name stream_url hs st =
        (Inr (), print (UnsupportedFileType (extension_of file_name)) st)
    \<and> files (print (UnsupportedFileType (extension_of file_name)) st) = files st
    \<and> sent (print (UnsupportedFileType (extension_of file_name)) st) = sent st)"
proof (intro conjI impI allI)
  assume "extension_of file_name \<in> {''.json'', []}"
  then show "export_events env events file_name hs st =
        export_events_to_file env (PathObject file_name) events hs st"
    by (simp add: export_events_def Let_def)
next
  assume "extension_of file_name \<in> {''.json'', []}"
  then show "process_import_file env file_name stream_url hs st =
        import_events env (UserPath file_name) stream_url hs st"
    by (simp add: process_import_file_def Let_def)
next
  fix st1
  assume x: "extension_of file_name \<in> {''.zip'', ''.tar.xz''}"
    and r: "export_events_to_file env (TempPath [''events.json'']) events hs (st\<lparr>tmpdir := []\<rparr>) = (Inr (), st1)"
  have w: "writable (TempPath [''events.json''])" by (simp add: writable_def)
  from export_events_to_file_leaves_file[OF w r]
  obtain c where c: "open_read st1 (TempPath [''events.json'']) = Inr c" by blast
  then have l: "lookup_tree (tmpdir st1) [''events.json''] = Inr (TFile c)"
    by (auto simp: open_read_def split: sum.splits tree.splits option.splits if_splits)
  from x have nd: "\<not> names_directory file_name"
    by (intro extension_names_file) auto
  from x r c l nd
  show "\<exists>c st'. export_events env events file_name hs st = (Inr (), st')
            \<and> open_read st1 (TempPath [''events.json'']) = Inr c
            \<and> files st' (file_key file_name) = Some (archive_of (extension_of file_name) c)
            \<and> tmpdir st' = []"
    by (auto simp: export_events_def Let_def compress_def write_archive_def print_def archive_of_def)
next
  fix e st1
  assume "extension_of file_name \<in> {''.zip'', ''.tar.xz''}"
    and "export_events_to_file env (TempPath [''events.json'']) events hs (st\<lparr>tmpdir := []\<rparr>) = (Inl e, st1)"
  then show "export_events env events file_name hs st = (Inl e, st1\<lparr>tmpdir := []\<rparr>)"
    by (auto simp: export_events_def Let_def)
next
  fix ms
  assume "extension_of file_name \<in> {''.zip'', ''.tar.xz''}"
    and "os_open st file_name = Inr (if extension_of file_name = ''.zip'' then Zip ms else TarXz ms)"
  then show "process_import_file env file_name stream_url hs st =
           (case import_walk env (os_walk ms) stream_url hs
                   (print (Extracted file_name) ((print (Extracting file_name) st)\<lparr>tmpdir := ms\<rparr>)) of
              (r, st2) \<Rightarrow> (r, st2\<lparr>tmpdir := []\<rparr>))"
    by (auto simp: process_import_file_def Let_def extract_archive_def print_def os_open_def)
next
  assume "extension_of file_name \<notin> {''.json'', [], ''.zip'', ''.tar.xz''}"
  then show "export_events env events file_name hs st =
        (Inr (), print (UnsupportedFileType (extension_of file_name)) st)"
    by (simp add: export_events_def Let_def)
next
  assume "extension_of file_name \<notin> {''.json'', [], ''.zip'', ''.tar.xz''}"
  then show "process_import_file env file_name stream_url hs st =
        (Inr (), print (UnsupportedFileType (extension_of file_name)) st)"
    by (simp add: process_import_file_def Let_def)
next
  show "files (print (UnsupportedFileType (extension_of file_name)) st) = files st"
    by (simp add: print_def)
next
  show "sent (print (UnsupportedFileType (extension_of file_name)) st) = sent st"
    by (simp add: print_def)
qed

text \<open>A name without extension, a \<^verbatim>\<open>.json\<close> name in a directory, an xz-tar export on the
  small server, and the unsupported extension \<^verbatim>\<open>.json.bak\<close>.\<close>

theorem extension_dispatch_witness:
  "export_events demo_env [demo_entry ''s/0''] ''backup'' [] demo_state =
     export_events_to_file demo_env (PathObject ''backup'') [demo_entry ''s/0''] [] demo_state
   \<and> process_import_file demo_env ''dir/a.json'' ''s'' [] demo_state =
     import_events demo_env (UserPath ''dir/a.json'') ''s'' [] demo_state
   \<and> (\<exists>st'. export_events demo_env [demo_entry ''s/0''] ''a.tar.xz'' [] demo_state = (Inr (), st')
         \<and> files st' ''a.tar.xz'' = Some (TarXz [(''events.json'', TFile (''{a}'' @ [LF]))])
         \<and> tmpdir st' = [])
   \<and> export_events demo_env [demo_entry ''s/0''] ''a.json.bak'' [] demo_state =
       (Inr (), print (UnsupportedFileType ''.json.bak'') demo_state)
   \<and> process_import_file demo_env ''a.json.bak'' ''s'' [] demo_state =
       (Inr (), print (UnsupportedFileType ''.json.bak'') demo_state)"
proof -
  have x1: "extension_of ''backup'' \<in> {''.json'', []}" "extension_of ''dir/a.json'' \<in> {''.json'', []}"
    by (simp_all add: extension_of_def path_name_def)
  have x2: "extension_of ''a.tar.xz'' = ''.tar.xz''"
    by (simp add: extension_of_def path_name_def)
  have x3: "extension_of ''a.json.bak'' = ''.json.bak''"
    by (simp add: extension_of_def path_name_def)
  have k: "file_key ''a.tar.xz'' = ''a.tar.xz''"
    by (simp add: file_key_def path_parts_def)
  have t: "export_events_to_file demo_env (TempPath [''events.json'']) [demo_entry ''s/0''] []
             (demo_state\<lparr>tmpdir := []\<rparr>)
           = (Inr (), demo_state\<lparr>server := 1, sent := [GET ''s/0'' []],
                 tmpdir := [(''events.json'', TFile (''{a}'' @ [LF]))]\<rparr>)"
    by (simp add: export_events_to_file_def write_file_def requests_get_def export_defs demo_defs)
  have o: "open_read (demo_state\<lparr>server := 1, sent := [GET ''s/0'' []],
                 tmpdir := [(''events.json'', TFile (''{a}'' @ [LF]))]\<rparr>) (TempPath [''events.json''])
           = Inr (''{a}'' @ [LF])"
    by (simp add: open_read_def)
  from extension_dispatch[of "''backup''" demo_env "[demo_entry ''s/0'']" "[]" demo_state "''s''"] x1
  have 1: "export_events demo_env [demo_entry ''s/0''] ''backup'' [] demo_state =
     export_events_to_file demo_env (PathObject ''backup'') [demo_entry ''s/0''] [] demo_state"
    by blast
  from extension_dispatch[of "''dir/a.json''" demo_env "[demo_entry ''s/0'']" "[]" demo_state "''s''"] x1
  have 2: "process_import_file demo_env ''dir/a.json'' ''s'' [] demo_state =
     import_events demo_env (UserPath ''dir/a.json'') ''s'' [] demo_state"
    by blast
  from extension_dispatch[of "''a.tar.xz''" demo_env "[demo_entry ''s/0'']" "[]" demo_state "''s''"] t o
  have 3: "\<exists>st'. export_events demo_env [demo_entry ''s/0''] ''a.tar.xz'' [] demo_state = (Inr (), st')
         \<and> files st' ''a.tar.xz'' = Some (TarXz [(''events.json'', TFile (''{a}'' @ [LF]))])
         \<and> tmpdir st' = []"
    unfolding x2 k by (auto simp: archive_of_def)
  from extension_dispatch[of "''a.json.bak''" demo_env "[demo_entry ''s/0'']" "[]" demo_state "''s''"]
  have 4: "export_events demo_env [demo_entry ''s/0''] ''a.json.bak'' [] demo_state =
       (Inr (), print (UnsupportedFileType ''.json.bak'') demo_state)
   \<and> process_import_file demo_env ''a.json.bak'' ''s'' [] demo_state =
       (Inr (), print (UnsupportedFileType ''.json.bak'') demo_state)"
    unfolding x3 by simp
  from 1 2 3 4 show ?thesis by blast
qed

section \<open>The member-count guard\<close>

text \<open>What the guard does ensure: when the number of names directly below the temporary
  directory that end in \<^verbatim>\<open>.json\<close> is not one, the import exits and has sent nothing.\<close>

lemma os_walk_first: "\<exists>roots. os_walk ms = [] # roots"
  by (simp add: os_walk_def)

lemma member_count_guard_top_level:
  assumes "extension_of filename \<in> {''.zip'', ''.tar.xz''}"
    and "os_open st filename = Inr (if extension_of filename = ''.zip'' then Zip ms else TarXz ms)"
    and "length (filter (\<lambda>f. endswith f ''.json'') (map fst ms)) \<noteq> 1"
  shows "fst (process_import_file env filename url hs st) = Inl SystemExit
     \<and> sent (snd (process_import_file env filename url hs st)) = sent st"
proof -
  obtain roots where r: "os_walk ms = [] # roots" using os_walk_first by blast
  from assms(3) have "length (filter (\<lambda>f. endswith f ''.json'') (map fst ms)) > 1
     \<or> length (filter (\<lambda>f. endswith f ''.json'') (map fst ms)) = 0" by arith
  with assms(1,2) show ?thesis
    by (auto simp: process_import_file_def Let_def extract_archive_def os_open_extracting r)
      (auto simp: print_def)
qed

text \<open>
  Claim C4 (archive member-count guard) does not hold of the code. The guard counts
  \<^verbatim>\<open>os.listdir(temp_dir)\<close>, the names directly below the temporary directory, in every
  round of \<^verbatim>\<open>os.walk\<close>. The archive below has two \<^verbatim>\<open>.json\<close> members, \<^verbatim>\<open>a.json\<close> and
  \<^verbatim>\<open>sub/b.json\<close>: the first round counts one name and imports \<^verbatim>\<open>a.json\<close> (one append
  request is sent), the second round, for \<^verbatim>\<open>sub\<close>, counts the same name and opens
  \<^verbatim>\<open>sub/a.json\<close>, which does not exist.
\<close>

theorem member_count_guard_nested:
  "process_import_file demo_env ''in.zip'' ''s'' []
     (demo_state\<lparr>files := [''in.zip'' \<mapsto> demo_nested_archive]\<rparr>) =
   (Inl FileNotFoundError,
    demo_state\<lparr>server := 1, sent := [POST ''s'' [] ''[a]''],
      files := [''in.zip'' \<mapsto> demo_nested_archive],
      stdout := [Extracting ''in.zip'', Extracted ''in.zip'', Uploaded 1]\<rparr>)"
  by (simp add: codec_defs replay_defs demo_defs demo_nested_archive_def Let_def)

section \<open>Stream discovery\<close>

text \<open>A title that begins with \<^verbatim>\<open>0@\<close> loses that prefix and nothing else.\<close>

lemma replace_first_prefix: "replace_first ''0@'' [] (''0@'' @ name) = name"
  by simp

lemma stream_name_prefixed:
  "getitem entry ''title'' = Inr (JStr (''0@'' @ name)) \<Longrightarrow> stream_name_of entry = Inr name"
  by (simp add: stream_name_of_def bind_err_def)

lemma stream_names_prefixed:
  assumes "list_all2 (\<lambda>entry name. getitem entry ''title'' = Inr (JStr (''0@'' @ name))) entries names"
  shows "stream_names entries = Inr names"
  using assms
  by (induction rule: list_all2_induct) (simp_all add: stream_name_prefixed bind_err_def)

text \<open>
  Claim C9 (stream name extraction) does not hold of the code for every title:
  \<^verbatim>\<open>replace('0@', '', 1)\<close> removes the first occurrence of \<^verbatim>\<open>0@\<close>, not a prefix. On the
  small server the index \<^verbatim>\<open>c\<close> has an entry with the title \<^verbatim>\<open>10@$streams\<close>; after the
  projection has run, the name produced for it is \<^verbatim>\<open>1$streams\<close>, which is not the title
  with something stripped from its front.
\<close>

theorem stream_name_first_occurrence:
  "get_available_streams demo_env ''c'' [] demo_state =
     Some (Inr (Some [''orders'', ''1$streams'']),
           demo_state\<lparr>server := 5,
             sent := [POST ''c/projection/$streams/command/enable'' command_headers [],
                      GET ''c/projection/$streams'' status_headers,
                      GET ''c/projection/$streams'' status_headers,
                      POST ''c/projection/$streams/command/disable'' command_headers [],
                      GET ''c/streams/$streams'' []]\<rparr>)
   \<and> stream_name_of (JObj [(''title'', JStr ''10@$streams'')]) = Inr ''1$streams''
   \<and> \<not> endswith ''10@$streams'' ''1$streams''"
  by (simp add: discovery_defs demo_defs poll_projection.simps endswith_def Let_def)

end
